theory Spec2Isabelle
  imports Complex_Main
begin

section \<open>Little Lemon: the booking widget of \<^verbatim>\<open>src/App.js\<close>\<close>

text \<open>
  The widget keeps a list of bookings, counts the bookings of a slot against a fixed
  capacity, validates the form and prepends a booking when the form is valid.

  Strings are HOL strings. A character is one code unit of the JavaScript string, and
  the development covers the code units below 256 (that is what \<^typ>\<open>char\<close> holds).
\<close>

subsection \<open>Numbers, forms and bookings\<close>

text \<open>
  \<^verbatim>\<open>Number(x)\<close> yields a double. The program only compares such a number with
  \<^verbatim>\<open>1\<close> and \<^verbatim>\<open>12\<close> and hands it to \<^verbatim>\<open>setHours\<close>. Both treat
  \<^verbatim>\<open>NaN\<close>, \<^verbatim>\<open>Infinity\<close> and \<^verbatim>\<open>-Infinity\<close> alike (the range test
  fails, the date becomes invalid), so the three are one value here; a finite double is
  the rational it denotes.
\<close>

datatype number = NotFinite | Num rat

text \<open>
  The form state of \<^verbatim>\<open>useState({name, phone, email, date, time, partySize, notes})\<close>.
  The field \<open>partySize\<close> holds the number \<^verbatim>\<open>2\<close> at start and the text of the input
  afterwards; the program reads it only through \<^verbatim>\<open>Number(form.partySize)\<close>, and the
  record keeps that number. \<open>notes\<close> is a reserved word of Isabelle, hence \<open>notes'\<close>.
\<close>

record form =
  name :: string
  phone :: string
  email :: string
  date :: string
  time :: string
  partySize :: number
  notes' :: string

text \<open>
  A booking, as \<^verbatim>\<open>handleSubmit\<close> builds it: the seven fields of the form and
  \<^verbatim>\<open>id\<close>, \<^verbatim>\<open>createdAt\<close> (\<open>id\<close> is the identity function of HOL, hence \<open>id'\<close>).
\<close>

record booking = form +
  id' :: string
  createdAt :: string

subsection \<open>Availability\<close>

definition MAX_TABLES_PER_SLOT :: int where
  "MAX_TABLES_PER_SLOT = 6"

text \<open>
  \<^verbatim>\<open>bookings.filter((b) => b.date === date && b.time === time).length\<close>
\<close>

definition countBookings :: "booking list \<Rightarrow> string \<Rightarrow> string \<Rightarrow> nat" where
  "countBookings bookings d t = length (filter (\<lambda>b. date b = d \<and> time b = t) bookings)"

text \<open>
  \<^verbatim>\<open>Math.max(0, MAX_TABLES_PER_SLOT - countBookings(date, time))\<close>
\<close>

definition availableTables :: "booking list \<Rightarrow> string \<Rightarrow> string \<Rightarrow> int" where
  "availableTables bookings d t = max 0 (MAX_TABLES_PER_SLOT - int (countBookings bookings d t))"

subsection \<open>Characters, trimming and the two patterns\<close>

text \<open>
  \<^verbatim>\<open>\d\<close> and \<^verbatim>\<open>[0-9]\<close>: the ten ASCII digits.
\<close>

definition digit :: "char \<Rightarrow> bool" where
  "digit c = (c \<in> set ''0123456789'')"

text \<open>
  \<^verbatim>\<open>\s\<close>, and what \<^verbatim>\<open>trim()\<close> strips: the white space and line terminators of
  ECMAScript. Below 256 these are tab, line feed, vertical tab, form feed, carriage
  return, space and the no-break space.
\<close>

definition space :: "char \<Rightarrow> bool" where
  "space c = (of_char c \<in> {9, 10, 11, 12, 13, 32, 160 :: nat})"

definition trim :: "string \<Rightarrow> string" where
  "trim s = rev (dropWhile space (rev (dropWhile space s)))"

text \<open>
  The patterns of \<^verbatim>\<open>validate\<close> are written as regular expressions and run by
  derivatives: \<open>test r s\<close> is \<^verbatim>\<open>/^r$/.test(s)\<close>, a match of the whole string.
\<close>

datatype rx = Nothing | Empty | Class "char \<Rightarrow> bool" | Seq rx rx | Alt rx rx | Star rx

fun nullable :: "rx \<Rightarrow> bool" where
  "nullable Nothing = False"
| "nullable Empty = True"
| "nullable (Class p) = False"
| "nullable (Seq r s) = (nullable r \<and> nullable s)"
| "nullable (Alt r s) = (nullable r \<or> nullable s)"
| "nullable (Star r) = True"

fun deriv :: "char \<Rightarrow> rx \<Rightarrow> rx" where
  "deriv c Nothing = Nothing"
| "deriv c Empty = Nothing"
| "deriv c (Class p) = (if p c then Empty else Nothing)"
| "deriv c (Seq r s) =
     (if nullable r then Alt (Seq (deriv c r) s) (deriv c s) else Seq (deriv c r) s)"
| "deriv c (Alt r s) = Alt (deriv c r) (deriv c s)"
| "deriv c (Star r) = Seq (deriv c r) (Star r)"

definition test :: "rx \<Rightarrow> string \<Rightarrow> bool" where
  "test r s = nullable (foldl (\<lambda>q c. deriv c q) r s)"

text \<open>\<^verbatim>\<open>r+\<close> and \<^verbatim>\<open>r{lo,hi}\<close>.\<close>

definition oneOrMore :: "rx \<Rightarrow> rx" where
  "oneOrMore r = Seq r (Star r)"

fun exactly :: "nat \<Rightarrow> rx \<Rightarrow> rx" where
  "exactly 0 r = Empty"
| "exactly (Suc n) r = Seq r (exactly n r)"

fun atMost' :: "nat \<Rightarrow> rx \<Rightarrow> rx" where
  "atMost' 0 r = Empty"
| "atMost' (Suc n) r = Alt Empty (Seq r (atMost' n r))"

definition between :: "nat \<Rightarrow> nat \<Rightarrow> rx \<Rightarrow> rx" where
  "between lo hi r = Seq (exactly lo r) (atMost' (hi - lo) r)"

text \<open>\<^verbatim>\<open>/^\d{7,15}$/\<close>\<close>

definition phoneRx :: rx where
  "phoneRx = between 7 15 (Class digit)"

text \<open>\<^verbatim>\<open>/^[^@\s]+@[^@\s]+\.[^@\s]+$/\<close>\<close>

definition notAtOrSpace :: rx where
  "notAtOrSpace = Class (\<lambda>c. \<not> (c = CHR ''@'' \<or> space c))"

definition emailRx :: rx where
  "emailRx =
     Seq (oneOrMore notAtOrSpace)
       (Seq (Class (\<lambda>c. c = CHR ''@''))
         (Seq (oneOrMore notAtOrSpace)
           (Seq (Class (\<lambda>c. c = CHR ''.'')) (oneOrMore notAtOrSpace))))"

subsection \<open>Dates\<close>

text \<open>
  A \<^verbatim>\<open>Date\<close> holds a time value: an integral number of milliseconds since the
  epoch, at most \<open>8.64e15\<close> in magnitude, or \<^verbatim>\<open>NaN\<close> (\<open>None\<close>). \<open>timeClip\<close>
  is TimeClip of ECMA-262; \<open>dateLess\<close> is \<^verbatim>\<open><\<close> on two dates, false when either
  is invalid.
\<close>

definition timeClip :: "int \<Rightarrow> int option" where
  "timeClip v = (if \<bar>v\<bar> \<le> 8640000000000000 then Some v else None)"

definition dateLess :: "int option \<Rightarrow> int option \<Rightarrow> bool" where
  "dateLess a b = (case a of None \<Rightarrow> False | Some x \<Rightarrow> (case b of None \<Rightarrow> False | Some y \<Rightarrow> x < y))"

text \<open>
  What the program calls and the runtime defines. \<open>toNumber\<close> is \<^verbatim>\<open>Number(s)\<close> on
  a string; \<open>parseDate\<close> is the time value of \<^verbatim>\<open>new Date(s)\<close> (ECMA-262 leaves it
  to the implementation for strings outside its date-time format); \<open>tzaOfUTC t\<close> and
  \<open>tzaOfLocal t\<close> are the offsets \<open>LocalTZA(t, true)\<close> and \<open>LocalTZA(t, false)\<close> of
  the local time zone, in milliseconds.
\<close>

record runtime =
  toNumber :: "string \<Rightarrow> number"
  parseDate :: "string \<Rightarrow> int option"
  tzaOfUTC :: "int \<Rightarrow> int"
  tzaOfLocal :: "int \<Rightarrow> int"

text \<open>
  The abstract operations of ECMA-262 on time values, in integer arithmetic: the
  doubles of the runtime are exact on the integers below \<open>2^53\<close>, and no time value
  reaches that.
\<close>

definition msPerDay :: int where
  "msPerDay = 86400000"

definition Day :: "int \<Rightarrow> int" where
  "Day t = t div msPerDay"

definition HourFromTime :: "int \<Rightarrow> int" where
  "HourFromTime t = (t div 3600000) mod 24"

definition MinFromTime :: "int \<Rightarrow> int" where
  "MinFromTime t = (t div 60000) mod 60"

definition SecFromTime :: "int \<Rightarrow> int" where
  "SecFromTime t = (t div 1000) mod 60"

definition msFromTime :: "int \<Rightarrow> int" where
  "msFromTime t = t mod 1000"

definition MakeTime :: "int \<Rightarrow> int \<Rightarrow> int \<Rightarrow> int \<Rightarrow> int" where
  "MakeTime h m sec ms = h * 3600000 + m * 60000 + sec * 1000 + ms"

definition MakeDate :: "int \<Rightarrow> int \<Rightarrow> int" where
  "MakeDate day tm = day * msPerDay + tm"

definition LocalTime :: "runtime \<Rightarrow> int \<Rightarrow> int" where
  "LocalTime rt t = t + tzaOfUTC rt t"

definition UTC :: "runtime \<Rightarrow> int \<Rightarrow> int" where
  "UTC rt t = t - tzaOfLocal rt t"

text \<open>ToIntegerOrInfinity on a finite number: truncation towards zero.\<close>

definition ToInteger :: "rat \<Rightarrow> int" where
  "ToInteger q = (if 0 \<le> q then \<lfloor>q\<rfloor> else \<lceil>q\<rceil>)"

text \<open>
  \<^verbatim>\<open>d.setHours(h, m, 0, 0)\<close> and \<^verbatim>\<open>d.setMinutes(m)\<close>, returning the new time value
  of \<open>d\<close>. An argument that is not finite makes the date invalid. \<open>getHours\<close>,
  \<open>getMinutes\<close> and \<open>setMinutes\<close> are called on valid dates only (inside the loop,
  whose test an invalid date fails), so they take the time value.
\<close>

definition setHours :: "runtime \<Rightarrow> number \<Rightarrow> number \<Rightarrow> int option \<Rightarrow> int option" where
  "setHours rt h m d =
     (case d of
        None \<Rightarrow> None
      | Some t \<Rightarrow>
          (case h of
             NotFinite \<Rightarrow> None
           | Num hq \<Rightarrow>
               (case m of
                  NotFinite \<Rightarrow> None
                | Num mq \<Rightarrow>
                    timeClip (UTC rt (MakeDate (Day (LocalTime rt t))
                      (MakeTime (ToInteger hq) (ToInteger mq) 0 0))))))"

definition getHours :: "runtime \<Rightarrow> int \<Rightarrow> int" where
  "getHours rt t = HourFromTime (LocalTime rt t)"

definition getMinutes :: "runtime \<Rightarrow> int \<Rightarrow> int" where
  "getMinutes rt t = MinFromTime (LocalTime rt t)"

definition setMinutes :: "runtime \<Rightarrow> int \<Rightarrow> int \<Rightarrow> int option" where
  "setMinutes rt m t =
     (let l = LocalTime rt t
      in timeClip (UTC rt (MakeDate (Day l)
           (MakeTime (HourFromTime l) m (SecFromTime l) (msFromTime l)))))"

subsection \<open>The time slots\<close>

text \<open>\<^verbatim>\<open>s.split(":")\<close>: the pieces between the separators, at least one.\<close>

fun split :: "char \<Rightarrow> string \<Rightarrow> string list" where
  "split c [] = [[]]"
| "split c (x # xs) =
     (if x = c then [] # split c xs
      else (case split c xs of [] \<Rightarrow> [[x]] | p # ps \<Rightarrow> (x # p) # ps))"

text \<open>
  \<^verbatim>\<open>const [h, m] = s.split(":").map(Number)\<close>: the first two pieces as numbers; a
  missing second piece is \<^verbatim>\<open>undefined\<close>, which \<^verbatim>\<open>setHours\<close> reads as \<^verbatim>\<open>NaN\<close>.
\<close>

definition hoursAndMinutes :: "runtime \<Rightarrow> string \<Rightarrow> number \<times> number" where
  "hoursAndMinutes rt s =
     (case map (toNumber rt) (split (CHR '':'') s) of
        [] \<Rightarrow> (NotFinite, NotFinite)
      | [h] \<Rightarrow> (h, NotFinite)
      | h # m # _ \<Rightarrow> (h, m))"

text \<open>\<^verbatim>\<open>String(n)\<close> on an integer and \<^verbatim>\<open>s.padStart(n, c)\<close> with a one-character pad.\<close>

fun decimalDigits :: "nat \<Rightarrow> string" where
  "decimalDigits n =
     (if n < 10 then [''0123456789'' ! n]
      else decimalDigits (n div 10) @ [''0123456789'' ! (n mod 10)])"

definition String' :: "int \<Rightarrow> string" where
  "String' n = (if n < 0 then CHR ''-'' # decimalDigits (nat (- n)) else decimalDigits (nat n))"

definition padStart :: "nat \<Rightarrow> char \<Rightarrow> string \<Rightarrow> string" where
  "padStart n c s = replicate (n - length s) c @ s"

text \<open>
  The loop of \<^verbatim>\<open>generateTimeSlots\<close>:
  \<^verbatim>\<open>while (base <= end) { slots.push(hh + ":" + mm); base.setMinutes(base.getMinutes() + stepMinutes); }\<close>
  It need not end (a step of zero never moves \<open>base\<close>), so not returning is \<open>None\<close>.
\<close>

partial_function (option) slotLoop ::
  "runtime \<Rightarrow> int \<Rightarrow> int option \<Rightarrow> int option \<Rightarrow> string list \<Rightarrow> string list option" where
  "slotLoop rt stepMinutes base end' slots =
     (case base of
        None \<Rightarrow> Some slots
      | Some b \<Rightarrow>
          (case end' of
             None \<Rightarrow> Some slots
           | Some e \<Rightarrow>
               if b \<le> e then
                 let hh = padStart 2 (CHR ''0'') (String' (getHours rt b));
                     mm = padStart 2 (CHR ''0'') (String' (getMinutes rt b))
                 in slotLoop rt stepMinutes (setMinutes rt (getMinutes rt b + stepMinutes) b) end'
                      (slots @ [hh @ '':'' @ mm])
               else Some slots))"

text \<open>
  \<^verbatim>\<open>generateTimeSlots(open, close, stepMinutes)\<close>. The function reads the clock twice
  (\<^verbatim>\<open>new Date()\<close>), once for \<open>base\<close> and once for \<open>end\<close>: \<open>now1\<close> and \<open>now2\<close> are
  the two readings. The step is an integer number of minutes.
\<close>

definition generateTimeSlots ::
  "runtime \<Rightarrow> int \<Rightarrow> int \<Rightarrow> string \<Rightarrow> string \<Rightarrow> int \<Rightarrow> string list option" where
  "generateTimeSlots rt now1 now2 open' close stepMinutes =
     (let (openH, openM) = hoursAndMinutes rt open';
          (closeH, closeM) = hoursAndMinutes rt close;
          base = setHours rt openH openM (Some now1);
          end' = setHours rt closeH closeM (Some now2)
      in slotLoop rt stepMinutes base end' [])"

subsection \<open>Validation, submission and cancellation\<close>

text \<open>
  The messages of \<^verbatim>\<open>validate\<close>, by the names the specification gives them:
  \<^item> \<open>EmptyField\<close>: \<^verbatim>\<open>"Name is required."\<close>
  \<^item> \<open>InvalidPhone\<close>: \<^verbatim>\<open>"Enter a valid phone number (7-15 digits)."\<close> (the source has
    an en dash between the two numbers)
  \<^item> \<open>InvalidEmail\<close>: \<^verbatim>\<open>"Enter a valid email."\<close>
  \<^item> \<open>PastDateTime\<close>: \<^verbatim>\<open>"Please choose a future date/time."\<close>
  \<^item> \<open>InvalidPartySize\<close>: \<^verbatim>\<open>"Party size must be between 1 and 12."\<close>
  \<^item> \<open>SlotFull\<close>: \<^verbatim>\<open>"No tables available for the chosen slot."\<close>
\<close>

datatype message =
  EmptyField | InvalidPhone | InvalidEmail | PastDateTime | InvalidPartySize | SlotFull

text \<open>
  The component's state: \<^verbatim>\<open>bookings\<close>, \<^verbatim>\<open>form\<close>, \<^verbatim>\<open>errors\<close> and
  \<^verbatim>\<open>success\<close>. The error object is the list of its properties in the order they
  were set; \<^verbatim>\<open>validate\<close> sets each key at most once.
\<close>

record state =
  bookings :: "booking list"
  form :: form
  errors :: "(string \<times> message) list"
  success :: "string option"

text \<open>The six tests of \<^verbatim>\<open>validate\<close>, each as the source writes it.\<close>

definition nameMissing :: "form \<Rightarrow> bool" where
  "nameMissing f = (trim (name f) = [])"

definition phoneInvalid :: "form \<Rightarrow> bool" where
  "phoneInvalid f = (\<not> test phoneRx (filter digit (phone f)))"

definition emailInvalid :: "form \<Rightarrow> bool" where
  "emailInvalid f = (\<not> test emailRx (email f))"

text \<open>
  \<^verbatim>\<open>selected < new Date(now.getTime() - 5 * 60 * 1000)\<close>, with \<open>now\<close> the clock's
  reading in milliseconds.
\<close>

definition selected :: "runtime \<Rightarrow> form \<Rightarrow> int option" where
  "selected rt f = parseDate rt (date f @ ''T'' @ time f @ '':00'')"

definition inThePast :: "runtime \<Rightarrow> int \<Rightarrow> form \<Rightarrow> bool" where
  "inThePast rt now f = dateLess (selected rt f) (timeClip (now - 5 * 60 * 1000))"

definition partySizeInvalid :: "form \<Rightarrow> bool" where
  "partySizeInvalid f =
     (\<not> (case partySize f of NotFinite \<Rightarrow> False | Num q \<Rightarrow> 1 \<le> q \<and> q \<le> 12))"

definition slotFull :: "booking list \<Rightarrow> form \<Rightarrow> bool" where
  "slotFull bs f = (availableTables bs (date f) (time f) \<le> 0)"

text \<open>
  \<^verbatim>\<open>validate()\<close>: builds the error object, stores it with \<^verbatim>\<open>setErrors\<close> and
  returns whether it has no key.
\<close>

definition validationErrors :: "runtime \<Rightarrow> int \<Rightarrow> booking list \<Rightarrow> form \<Rightarrow> (string \<times> message) list" where
  "validationErrors rt now bs f =
     (let e = [];
          e = (if nameMissing f then e @ [(''name'', EmptyField)] else e);
          e = (if phoneInvalid f then e @ [(''phone'', InvalidPhone)] else e);
          e = (if emailInvalid f then e @ [(''email'', InvalidEmail)] else e);
          e = (if inThePast rt now f then e @ [(''date'', PastDateTime)] else e);
          e = (if partySizeInvalid f then e @ [(''partySize'', InvalidPartySize)] else e);
          e = (if slotFull bs f then e @ [(''time'', SlotFull)] else e)
      in e)"

definition validate :: "runtime \<Rightarrow> int \<Rightarrow> state \<Rightarrow> bool \<times> state" where
  "validate rt now s =
     (let e = validationErrors rt now (bookings s) (form s)
      in (e = [], s\<lparr>errors := e\<rparr>))"

text \<open>
  \<^verbatim>\<open>handleSubmit(ev)\<close>: the state once the updates the handler queues are applied,
  for a handler that runs on the render of the state \<open>s\<close> itself: the \<^verbatim>\<open>form\<close> and
  the \<^verbatim>\<open>bookings\<close> it reads are those of \<open>s\<close>. \<open>newId\<close> is the string
  \<^verbatim>\<open>Date.now().toString(36) + Math.random().toString(36).slice(2, 8)\<close> and \<open>stamp\<close> is
  \<^verbatim>\<open>new Date().toISOString()\<close>: both come from the clock and the random source.
\<close>

definition newBooking :: "string \<Rightarrow> string \<Rightarrow> form \<Rightarrow> booking" where
  "newBooking newId stamp f =
     \<lparr>name = trim (name f), phone = trim (phone f), email = trim (email f),
      date = date f, time = time f, partySize = partySize f, notes' = trim (notes' f),
      id' = newId, createdAt = stamp\<rparr>"

definition handleSubmit :: "runtime \<Rightarrow> int \<Rightarrow> string \<Rightarrow> string \<Rightarrow> state \<Rightarrow> state" where
  "handleSubmit rt now newId stamp s =
     (let s = s\<lparr>success := None\<rparr>;
          (ok, s) = validate rt now s
      in if \<not> ok then s
         else
           let f = form s;
               s = s\<lparr>bookings := newBooking newId stamp f # bookings s\<rparr>;
               s = s\<lparr>success := Some (''Booking confirmed for '' @ date f @ '' at '' @ time f)\<rparr>
           in s\<lparr>form := (form s)\<lparr>name := [], phone := [], email := [], notes' := []\<rparr>\<rparr>)"

text \<open>
  \<^verbatim>\<open>handleCancel(id)\<close>; \<open>confirmed\<close> is the answer of
  \<^verbatim>\<open>confirm("Cancel this booking?")\<close>.
\<close>

definition handleCancel :: "bool \<Rightarrow> string \<Rightarrow> state \<Rightarrow> state" where
  "handleCancel confirmed i s =
     (if \<not> confirmed then s
      else s\<lparr>bookings := filter (\<lambda>x. id' x \<noteq> i) (bookings s)\<rparr>)"

text \<open>
  A handler is a closure of the render that created it. \<^verbatim>\<open>validate\<close> and
  \<^verbatim>\<open>handleSubmit\<close> read \<^verbatim>\<open>form\<close> and \<^verbatim>\<open>bookings\<close> of that render, while
  \<^verbatim>\<open>setBookings((b) => [newBooking, ...b])\<close> and \<^verbatim>\<open>setForm((f) => ...)\<close> pass a
  function, which React applies to the state as it is when the update runs;
  \<^verbatim>\<open>setErrors(e)\<close> and \<^verbatim>\<open>setSuccess(...)\<close> pass a value. When two events are handled
  before the component renders again, the second handler still reads the values of the
  first render. \<open>handleSubmitOn rt now newId stamp r s\<close> is the state after the handler
  of the render \<open>r\<close> ran on the state \<open>s\<close>; \<open>handleSubmit\<close> is the case \<open>r = s\<close>.
  \<^verbatim>\<open>handleCancel\<close> reads nothing of its render.
\<close>

definition handleSubmitOn ::
  "runtime \<Rightarrow> int \<Rightarrow> string \<Rightarrow> string \<Rightarrow> state \<Rightarrow> state \<Rightarrow> state" where
  "handleSubmitOn rt now newId stamp r s =
     (let s = s\<lparr>success := None\<rparr>;
          e = validationErrors rt now (bookings r) (form r);
          s = s\<lparr>errors := e\<rparr>
      in if e \<noteq> [] then s
         else
           let f = form r;
               s = s\<lparr>bookings := newBooking newId stamp f # bookings s\<rparr>;
               s = s\<lparr>success := Some (''Booking confirmed for '' @ date f @ '' at '' @ time f)\<rparr>
           in s\<lparr>form := (form s)\<lparr>name := [], phone := [], email := [], notes' := []\<rparr>\<rparr>)"

subsection \<open>A runtime and a form for the examples\<close>

text \<open>
  The examples below run the program in a concrete runtime. Its \<^verbatim>\<open>Number\<close> reads a
  string of at most fifteen decimal digits (each such integer is a double; the empty
  string is \<open>0\<close>); the examples pass it no other string. Its \<^verbatim>\<open>new Date(s)\<close> reads
  the form \<^verbatim>\<open>YYYY-MM-DDTHH:mm:ss\<close> of ECMA-262 as a local time.
\<close>

definition digitValue :: "char \<Rightarrow> nat" where
  "digitValue c = of_char c - 48"

definition decimal :: "string \<Rightarrow> nat" where
  "decimal s = foldl (\<lambda>n c. 10 * n + digitValue c) 0 s"

definition decimalNumber :: "string \<Rightarrow> number" where
  "decimalNumber s =
     (if list_all digit s \<and> length s \<le> 15 then Num (of_nat (decimal s)) else NotFinite)"

definition daysInMonth :: "int \<Rightarrow> int \<Rightarrow> int" where
  "daysInMonth y m =
     (if m = 2 then (if y mod 4 = 0 \<and> (y mod 100 \<noteq> 0 \<or> y mod 400 = 0) then 29 else 28)
      else if m = 4 \<or> m = 6 \<or> m = 9 \<or> m = 11 then 30 else 31)"

text \<open>The day number of a date of the proleptic Gregorian calendar; day 0 is 1 January 1970.\<close>

definition daysFromCivil :: "int \<Rightarrow> int \<Rightarrow> int \<Rightarrow> int" where
  "daysFromCivil y m d =
     (let y' = (if m \<le> 2 then y - 1 else y);
          era = y' div 400;
          yoe = y' - era * 400;
          mp = (if 2 < m then m - 3 else m + 9);
          doy = (153 * mp + 2) div 5 + d - 1;
          doe = yoe * 365 + yoe div 4 - yoe div 100 + doy
      in era * 146097 + doe - 719468)"

definition isoParse :: "(int \<Rightarrow> int) \<Rightarrow> string \<Rightarrow> int option" where
  "isoParse tzaLocal s =
     (let y = take 4 s; mo = take 2 (drop 5 s); d = take 2 (drop 8 s);
          h = take 2 (drop 11 s); mi = take 2 (drop 14 s); se = take 2 (drop 17 s);
          year = int (decimal y); month = int (decimal mo); day = int (decimal d);
          hour = int (decimal h); minute = int (decimal mi); second = int (decimal se)
      in if length s = 19 \<and> s ! 4 = CHR ''-'' \<and> s ! 7 = CHR ''-'' \<and> s ! 10 = CHR ''T''
            \<and> s ! 13 = CHR '':'' \<and> s ! 16 = CHR '':''
            \<and> list_all digit (y @ mo @ d @ h @ mi @ se)
            \<and> 1 \<le> month \<and> month \<le> 12 \<and> 1 \<le> day \<and> day \<le> daysInMonth year month
            \<and> hour < 24 \<and> minute < 60 \<and> second < 60
         then
           let l = MakeDate (daysFromCivil year month day) (MakeTime hour minute second 0)
           in timeClip (l - tzaLocal l)
         else None)"

text \<open>A runtime whose local time is UTC.\<close>

definition utcRuntime :: runtime where
  "utcRuntime =
     \<lparr>toNumber = decimalNumber, parseDate = isoParse (\<lambda>t. 0),
      tzaOfUTC = (\<lambda>t. 0), tzaOfLocal = (\<lambda>t. 0)\<rparr>"

text \<open>
  A runtime in the zone of New York around 9 March 2025. At 07:00:00 UTC of that day
  (time value \<open>1741503600000\<close>) the offset goes from five hours behind UTC to four: the
  local clock jumps from 02:00 to 03:00. A local time from 02:00 to 03:00 of that day
  does not exist; ECMA-262 reads it with the offset before the transition.
\<close>

definition newYorkUTC :: "int \<Rightarrow> int" where
  "newYorkUTC t = (if t < 1741503600000 then - 18000000 else - 14400000)"

definition newYorkLocal :: "int \<Rightarrow> int" where
  "newYorkLocal l = (if l < 1741489200000 then - 18000000 else - 14400000)"

definition newYorkRuntime :: runtime where
  "newYorkRuntime =
     \<lparr>toNumber = decimalNumber, parseDate = isoParse newYorkLocal,
      tzaOfUTC = newYorkUTC, tzaOfLocal = newYorkLocal\<rparr>"

text \<open>
  The form of the specification's scenario, for 1 January 2025 at 18:00, and the clock
  at noon of that day (\<open>1735732800000\<close>).
\<close>

definition anaForm :: form where
  "anaForm =
     \<lparr>name = ''Ana'', phone = ''123-456-7890'', email = ''ana@x.com'',
      date = ''2025-01-01'', time = ''18:00'', partySize = Num 3, notes' = []\<rparr>"

definition noon :: int where
  "noon = 1735732800000"

definition startState :: "form \<Rightarrow> state" where
  "startState f = \<lparr>bookings = [], form = f, errors = [], success = None\<rparr>"

subsection \<open>Notions the statements use\<close>

text \<open>
  What a pattern matches, said without derivatives: the usual reading of a regular
  expression. \<open>test\<close> is proved to agree with it.
\<close>

inductive matches :: "rx \<Rightarrow> string \<Rightarrow> bool" where
  mEmpty: "matches Empty []"
| mClass: "p c \<Longrightarrow> matches (Class p) [c]"
| mSeq: "matches r u \<Longrightarrow> matches s v \<Longrightarrow> matches (Seq r s) (u @ v)"
| mAltL: "matches r u \<Longrightarrow> matches (Alt r s) u"
| mAltR: "matches s u \<Longrightarrow> matches (Alt r s) u"
| mStarNil: "matches (Star r) []"
| mStarStep: "matches r u \<Longrightarrow> matches (Star r) v \<Longrightarrow> matches (Star r) (u @ v)"

inductive_cases matches_NothingE: "matches Nothing w"
inductive_cases matches_EmptyE: "matches Empty w"
inductive_cases matches_ClassE: "matches (Class p) w"
inductive_cases matches_SeqE: "matches (Seq r s) w"
inductive_cases matches_AltE: "matches (Alt r s) w"

text \<open>Some test of \<^verbatim>\<open>validate\<close> fails on the state's form and bookings.\<close>

definition anyRuleFails :: "runtime \<Rightarrow> int \<Rightarrow> state \<Rightarrow> bool" where
  "anyRuleFails rt now s =
     (nameMissing (form s) \<or> phoneInvalid (form s) \<or> emailInvalid (form s) \<or>
      inThePast rt now (form s) \<or> partySizeInvalid (form s) \<or> slotFull (bookings s) (form s))"

text \<open>
  The six validation rules as the specification words them (its section 4.3), each as
  the condition under which the rule fails:
  \<^item> name: blank after trimming, that is, white space only;
  \<^item> phone: the number of its digits is not from 7 to 15;
  \<^item> email: not of the form \<^verbatim>\<open>local-part@domain.tld\<close>: a run, an \<open>@\<close>, a run, a
    dot and a run, the three runs non-empty, without \<open>@\<close> and without white space;
  \<^item> date and time: their timestamp is earlier than the clock minus five minutes;
  \<^item> party size: not an integer from 1 to 12;
  \<^item> availability: \<open>availableTables\<close> of the slot is not positive.

  \<open>partySizeOutOfRange\<close> is the fifth rule without the word integer: the party size
  is not a number from 1 to 12.
\<close>

definition nameRuleFails :: "form \<Rightarrow> bool" where
  "nameRuleFails f = list_all space (name f)"

definition phoneRuleFails :: "form \<Rightarrow> bool" where
  "phoneRuleFails f =
     (\<not> (7 \<le> length (filter digit (phone f)) \<and> length (filter digit (phone f)) \<le> 15))"

definition emailRuleFails :: "form \<Rightarrow> bool" where
  "emailRuleFails f =
     (\<not> (\<exists>a b c. email f = a @ ''@'' @ b @ ''.'' @ c \<and> a \<noteq> [] \<and> b \<noteq> [] \<and> c \<noteq> []
            \<and> list_all (\<lambda>x. \<not> (x = CHR ''@'' \<or> space x)) (a @ b @ c)))"

definition dateTimeRuleFails :: "runtime \<Rightarrow> int \<Rightarrow> form \<Rightarrow> bool" where
  "dateTimeRuleFails rt now f = (\<exists>t. selected rt f = Some t \<and> t < now - 5 * 60 * 1000)"

definition wholeNumber :: "rat \<Rightarrow> bool" where
  "wholeNumber q = (of_int \<lfloor>q\<rfloor> = q)"

definition partySizeRuleFails :: "form \<Rightarrow> bool" where
  "partySizeRuleFails f =
     (case partySize f of
        NotFinite \<Rightarrow> True
      | Num q \<Rightarrow> \<not> (wholeNumber q \<and> 1 \<le> q \<and> q \<le> 12))"

definition partySizeOutOfRange :: "form \<Rightarrow> bool" where
  "partySizeOutOfRange f = (\<not> (\<exists>q. partySize f = Num q \<and> 1 \<le> q \<and> q \<le> 12))"

definition availabilityRuleFails :: "booking list \<Rightarrow> form \<Rightarrow> bool" where
  "availabilityRuleFails bs f = (\<not> 0 < availableTables bs (date f) (time f))"


text \<open>
  The runs in which the component renders between any two events, so that every
  handler runs on a render of the current state.
\<close>

inductive inStep :: "state \<Rightarrow> bool" where
  start: "inStep \<lparr>bookings = [], form = f, errors = e, success = u\<rparr>"
| edit: "inStep s \<Longrightarrow> inStep (s\<lparr>form := f, errors := e, success := u\<rparr>)"
| submit: "inStep s \<Longrightarrow> inStep (handleSubmit rt now newId stamp s)"
| cancel: "inStep s \<Longrightarrow> inStep (handleCancel confirmed i s)"

text \<open>
  A reading of the clock: a time value at least two days inside the range of time
  values, which ends in the years -271821 and 275760.
\<close>

definition clockReading :: "int \<Rightarrow> bool" where
  "clockReading now = (\<bar>now\<bar> + 2 * msPerDay \<le> 8640000000000000)"

text \<open>
  For the examples: \<open>rounds n s\<close> fills in the form of the scenario and submits it,
  \<open>n\<close> times, at noon in the UTC runtime.
\<close>

fun rounds :: "nat \<Rightarrow> state \<Rightarrow> state" where
  "rounds 0 s = s"
| "rounds (Suc n) s =
     rounds n (handleSubmit utcRuntime noon (''b'' @ decimalDigits n) ''2025-01-01T12:00:00.000Z''
       (s\<lparr>form := anaForm\<rparr>))"


definition halfForm :: form where
  "halfForm = anaForm\<lparr>partySize := Num (7 / 2)\<rparr>"

subsection \<open>Notions for the time slots\<close>

text \<open>
  A time of day \<^verbatim>\<open>HH:MM\<close>: two digits, a colon, two digits, the hours below 24 and
  the minutes below 60. \<open>minutesOf\<close> is its number of minutes since midnight.
\<close>

definition twoDigits :: "char \<Rightarrow> char \<Rightarrow> int" where
  "twoDigits a b = int (10 * digitValue a + digitValue b)"

definition wellFormed :: "string \<Rightarrow> bool" where
  "wellFormed s =
     (case s of
        [a, b, c, d, e] \<Rightarrow>
          digit a \<and> digit b \<and> c = CHR '':'' \<and> digit d \<and> digit e
          \<and> twoDigits a b < 24 \<and> twoDigits d e < 60
      | _ \<Rightarrow> False)"

definition minutesOf :: "string \<Rightarrow> int" where
  "minutesOf s =
     (case s of
        [a, b, c, d, e] \<Rightarrow> 60 * twoDigits a b + twoDigits d e
      | _ \<Rightarrow> 0)"

text \<open>
  \<^verbatim>\<open>s < t\<close> on two strings, as JavaScript compares them: code unit by code unit,
  a proper prefix first.
\<close>

fun textLess :: "string \<Rightarrow> string \<Rightarrow> bool" where
  "textLess [] [] = False"
| "textLess [] (y # ys) = True"
| "textLess (x # xs) [] = False"
| "textLess (x # xs) (y # ys) = ((of_char x :: nat) < of_char y \<or> (x = y \<and> textLess xs ys))"

text \<open>
  What the statements about the time slots ask of the runtime and of the moment:
  \<^item> \<^verbatim>\<open>Number\<close> reads two decimal digits as their value;
  \<^item> the local day of the first reading of the clock is quiet: the offset of the zone
    is the same at all instants and for all local times of that day, and a local time
    after that day is an instant after that day;
  \<^item> the second reading of the clock falls on the same local day.

  \<open>localMidnight rt now\<close> is the instant at which the local day of \<open>now\<close> began, the
  offset being what it is at \<open>now\<close>. A zone of one offset (\<open>fixedOffset\<close>) is quiet every
  day; a zone with daylight-saving time is quiet on all days but the two of its
  transitions.
\<close>

definition readsTwoDigits :: "runtime \<Rightarrow> bool" where
  "readsTwoDigits rt =
     (\<forall>a b. digit a \<and> digit b \<longrightarrow> toNumber rt [a, b] = Num (of_int (twoDigits a b)))"

definition localMidnight :: "runtime \<Rightarrow> int \<Rightarrow> int" where
  "localMidnight rt now = Day (LocalTime rt now) * msPerDay - tzaOfUTC rt now"

definition quietDay :: "runtime \<Rightarrow> int \<Rightarrow> bool" where
  "quietDay rt now =
     (let c = tzaOfUTC rt now; b = localMidnight rt now
      in (\<forall>t. b \<le> t \<and> t < b + msPerDay \<longrightarrow> tzaOfUTC rt t = c)
       \<and> (\<forall>l. b + c \<le> l \<and> l < b + c + msPerDay \<longrightarrow> tzaOfLocal rt l = c)
       \<and> (\<forall>l. b + c + msPerDay \<le> l \<longrightarrow> b + msPerDay \<le> UTC rt l))"

definition sameLocalDay :: "runtime \<Rightarrow> int \<Rightarrow> int \<Rightarrow> bool" where
  "sameLocalDay rt now1 now2 =
     (localMidnight rt now1 \<le> now2 \<and> now2 < localMidnight rt now1 + msPerDay)"

definition fixedOffset :: "runtime \<Rightarrow> int \<Rightarrow> bool" where
  "fixedOffset rt c = ((\<forall>t. tzaOfUTC rt t = c) \<and> (\<forall>t. tzaOfLocal rt t = c))"

text \<open>
  For the statements and proofs about the loop: \<open>label rt t\<close> is the text the loop
  pushes for the time value \<open>t\<close>, \<open>clockText m\<close> the same text for the minute \<open>m\<close> of
  the day, and \<open>slotCount lo hi s\<close> the number of points \<open>lo\<close>, \<open>lo + s\<close>, ... that
  are not above \<open>hi\<close>.
\<close>

definition label :: "runtime \<Rightarrow> int \<Rightarrow> string" where
  "label rt t = padStart 2 (CHR ''0'') (String' (getHours rt t)) @ '':'' @
                 padStart 2 (CHR ''0'') (String' (getMinutes rt t))"

definition clockText :: "int \<Rightarrow> string" where
  "clockText m = padStart 2 (CHR ''0'') (String' (m div 60)) @ '':'' @
                 padStart 2 (CHR ''0'') (String' (m mod 60))"

definition slotCount :: "int \<Rightarrow> int \<Rightarrow> int \<Rightarrow> nat" where
  "slotCount b e s = (if b \<le> e then nat ((e - b) div s) + 1 else 0)"

section \<open>Properties\<close>

subsection \<open>Availability\<close>

lemma countBookings_card:
  "countBookings bs d t = card {i. i < length bs \<and> date (bs ! i) = d \<and> time (bs ! i) = t}"
  by (simp add: countBookings_def length_filter_conv_card)

text \<open>
  C1. For every store, date string and time string, \<open>availableTables\<close> is
  \<open>max 0 (6 - n)\<close>, where \<open>n\<close> is the number of positions of the store whose booking has
  exactly that date and that time; the result is never negative, however many
  bookings the slot holds.
\<close>

theorem availableTables_formula:
  "availableTables bs d t
     = max 0 (6 - int (card {i. i < length bs \<and> date (bs ! i) = d \<and> time (bs ! i) = t}))
   \<and> 0 \<le> availableTables bs d t"
  by (simp add: availableTables_def MAX_TABLES_PER_SLOT_def countBookings_card)

text \<open>A store that holds seven bookings of one slot: no table is left, and not minus one.\<close>

theorem availableTables_formula_witness:
  "countBookings (replicate 7 (newBooking ''b0'' ''2025-01-01T12:00:00.000Z'' anaForm))
     ''2025-01-01'' ''18:00'' = 7
   \<and> availableTables (replicate 7 (newBooking ''b0'' ''2025-01-01T12:00:00.000Z'' anaForm))
     ''2025-01-01'' ''18:00'' = 0"
proof -
  let ?bs = "replicate 7 (newBooking ''b0'' ''2025-01-01T12:00:00.000Z'' anaForm)"
  have seven: "countBookings ?bs ''2025-01-01'' ''18:00'' = 7"
    by code_simp
  then have "card {i. i < length ?bs \<and> date (?bs ! i) = ''2025-01-01'' \<and> time (?bs ! i) = ''18:00''} = 7"
    by (simp only: countBookings_card)
  then have "availableTables ?bs ''2025-01-01'' ''18:00'' = 0"
    using availableTables_formula [of ?bs "''2025-01-01''" "''18:00''"] by simp
  then show ?thesis using seven by simp
qed

subsection \<open>The pattern matcher\<close>

lemma nullable_matches: "nullable r \<longleftrightarrow> matches r []"
proof (induction r)
  case Nothing
  show ?case by (auto elim: matches_NothingE)
next
  case Empty
  show ?case by (simp add: mEmpty)
next
  case (Class p)
  show ?case by (auto elim: matches_ClassE)
next
  case (Seq r s)
  show ?case
  proof
    assume "nullable (Seq r s)"
    then have "matches r []" "matches s []" using Seq by auto
    then have "matches (Seq r s) ([] @ [])" by (rule mSeq)
    then show "matches (Seq r s) []" by simp
  next
    assume "matches (Seq r s) []"
    then obtain u v where "[] = u @ v" "matches r u" "matches s v" by (rule matches_SeqE)
    then show "nullable (Seq r s)" using Seq by simp
  qed
next
  case (Alt r s)
  show ?case using Alt by (auto elim: matches_AltE intro: mAltL mAltR)
next
  case (Star r)
  show ?case by (simp add: mStarNil)
qed

lemma matches_Star_cons:
  "matches q w \<Longrightarrow> q = Star r \<Longrightarrow> w = c # v \<Longrightarrow>
     \<exists>u1 u2. v = u1 @ u2 \<and> matches r (c # u1) \<and> matches (Star r) u2"
proof (induction q w arbitrary: v rule: matches.induct)
  case (mStarStep r' u v')
  show ?case
  proof (cases u)
    case Nil
    then show ?thesis using mStarStep by auto
  next
    case (Cons a u')
    then show ?thesis using mStarStep by auto
  qed
qed auto

lemma matches_Seq_iff:
  "matches (Seq r s) w \<longleftrightarrow> (\<exists>u v. w = u @ v \<and> matches r u \<and> matches s v)"
proof
  assume "matches (Seq r s) w"
  then obtain u v where "w = u @ v" "matches r u" "matches s v" by (rule matches_SeqE)
  then show "\<exists>u v. w = u @ v \<and> matches r u \<and> matches s v" by blast
next
  assume "\<exists>u v. w = u @ v \<and> matches r u \<and> matches s v"
  then obtain u v where "w = u @ v" "matches r u" "matches s v" by blast
  then show "matches (Seq r s) w" using mSeq by simp
qed

lemma matches_Alt_iff: "matches (Alt r s) w \<longleftrightarrow> matches r w \<or> matches s w"
  by (blast elim: matches_AltE intro: mAltL mAltR)

lemma matches_Nothing_iff: "matches Nothing w \<longleftrightarrow> False"
  by (blast elim: matches_NothingE)

lemma matches_Empty_iff: "matches Empty w \<longleftrightarrow> w = []"
  by (blast elim: matches_EmptyE intro: mEmpty)

lemma matches_Class_iff: "matches (Class p) w \<longleftrightarrow> (\<exists>c. w = [c] \<and> p c)"
  by (blast elim: matches_ClassE intro: mClass)

lemma matches_Star_iff:
  "matches (Star r) (c # w) \<longleftrightarrow> (\<exists>u v. w = u @ v \<and> matches r (c # u) \<and> matches (Star r) v)"
proof
  assume "matches (Star r) (c # w)"
  then show "\<exists>u v. w = u @ v \<and> matches r (c # u) \<and> matches (Star r) v"
    using matches_Star_cons by blast
next
  assume "\<exists>u v. w = u @ v \<and> matches r (c # u) \<and> matches (Star r) v"
  then obtain u v where uv: "w = u @ v" "matches r (c # u)" "matches (Star r) v" by blast
  then have "matches (Star r) ((c # u) @ v)" by (intro mStarStep)
  then show "matches (Star r) (c # w)" using uv by simp
qed

lemma deriv_matches: "matches (deriv c r) w \<longleftrightarrow> matches r (c # w)"
proof (induction r arbitrary: w)
  case Nothing
  show ?case by (simp add: matches_Nothing_iff)
next
  case Empty
  show ?case by (simp add: matches_Nothing_iff matches_Empty_iff)
next
  case (Class p)
  show ?case by (simp add: matches_Nothing_iff matches_Empty_iff matches_Class_iff)
next
  case (Seq r s)
  have "matches (Seq r s) (c # w) \<longleftrightarrow>
          (\<exists>u v. w = u @ v \<and> matches r (c # u) \<and> matches s v) \<or> (matches r [] \<and> matches s (c # w))"
    unfolding matches_Seq_iff [of r s] by (auto simp: Cons_eq_append_conv)
  then show ?case
    using Seq by (simp add: matches_Seq_iff matches_Alt_iff nullable_matches)
next
  case (Alt r s)
  show ?case using Alt by (simp add: matches_Alt_iff)
next
  case (Star r)
  show ?case using Star by (simp add: matches_Seq_iff matches_Star_iff)
qed

lemma foldl_deriv_matches: "matches (foldl (\<lambda>q c. deriv c q) r s) w \<longleftrightarrow> matches r (s @ w)"
  by (induction s arbitrary: r) (simp_all add: deriv_matches)

lemma test_matches: "test r s \<longleftrightarrow> matches r s"
  using foldl_deriv_matches [of r s "[]"] by (simp add: test_def nullable_matches)

lemma matches_Class_Seq:
  "matches (Seq (Class p) r) w \<longleftrightarrow> (\<exists>c v. w = c # v \<and> p c \<and> matches r v)"
proof
  assume "matches (Seq (Class p) r) w"
  then show "\<exists>c v. w = c # v \<and> p c \<and> matches r v"
    by (auto simp: matches_Seq_iff matches_Class_iff)
next
  assume "\<exists>c v. w = c # v \<and> p c \<and> matches r v"
  then obtain c v where "w = [c] @ v" "p c" "matches r v" by auto
  then show "matches (Seq (Class p) r) w"
    unfolding matches_Seq_iff matches_Class_iff by blast
qed

lemma matches_exactly:
  "matches (exactly n (Class p)) w \<longleftrightarrow> length w = n \<and> list_all p w"
proof (induction n arbitrary: w)
  case 0
  show ?case by (auto simp: matches_Empty_iff)
next
  case (Suc n)
  show ?case by (cases w) (auto simp: matches_Class_Seq Suc)
qed

lemma matches_atMost':
  "matches (atMost' n (Class p)) w \<longleftrightarrow> length w \<le> n \<and> list_all p w"
proof (induction n arbitrary: w)
  case 0
  show ?case by (auto simp: matches_Empty_iff)
next
  case (Suc n)
  show ?case
    by (cases w) (auto simp: matches_Class_Seq matches_Alt_iff matches_Empty_iff Suc)
qed

lemma matches_between:
  assumes "lo \<le> hi"
  shows "matches (between lo hi (Class p)) w \<longleftrightarrow> lo \<le> length w \<and> length w \<le> hi \<and> list_all p w"
proof
  assume "matches (between lo hi (Class p)) w"
  then obtain u v where "w = u @ v" "length u = lo" "list_all p u" "length v \<le> hi - lo" "list_all p v"
    by (auto simp: between_def matches_Seq_iff matches_exactly matches_atMost')
  then show "lo \<le> length w \<and> length w \<le> hi \<and> list_all p w"
    using assms by simp
next
  assume a: "lo \<le> length w \<and> length w \<le> hi \<and> list_all p w"
  have "list_all p (take lo w)" "list_all p (drop lo w)"
    using a by (auto simp: list_all_iff dest: in_set_takeD in_set_dropD)
  moreover have "length (take lo w) = lo" "length (drop lo w) \<le> hi - lo"
    using a by auto
  ultimately have "\<exists>u v. w = u @ v \<and> (length u = lo \<and> list_all p u) \<and> (length v \<le> hi - lo \<and> list_all p v)"
    by (metis append_take_drop_id)
  then show "matches (between lo hi (Class p)) w"
    by (simp add: between_def matches_Seq_iff matches_exactly matches_atMost')
qed

lemma test_phoneRx: "test phoneRx w \<longleftrightarrow> 7 \<le> length w \<and> length w \<le> 15 \<and> list_all digit w"
  by (simp add: test_matches phoneRx_def matches_between)

lemma matches_Star_Class: "matches (Star (Class p)) w \<longleftrightarrow> list_all p w"
proof (induction w)
  case Nil
  show ?case by (simp add: mStarNil)
next
  case (Cons c w)
  have "matches (Star (Class p)) (c # w)
      \<longleftrightarrow> (\<exists>u v. w = u @ v \<and> matches (Class p) (c # u) \<and> matches (Star (Class p)) v)"
    by (rule matches_Star_iff)
  also have "\<dots> \<longleftrightarrow> p c \<and> matches (Star (Class p)) w"
    by (auto simp: matches_Class_iff)
  finally show ?case using Cons by simp
qed

lemma matches_oneOrMore_Class:
  "matches (oneOrMore (Class p)) w \<longleftrightarrow> w \<noteq> [] \<and> list_all p w"
  unfolding oneOrMore_def matches_Class_Seq matches_Star_Class
  by (cases w) auto

lemma matches_run_then:
  "matches (Seq (oneOrMore (Class p)) r) w
     \<longleftrightarrow> (\<exists>a v. w = a @ v \<and> a \<noteq> [] \<and> list_all p a \<and> matches r v)"
  unfolding matches_Seq_iff matches_oneOrMore_Class by blast

lemma matches_char_then:
  "matches (Seq (Class (\<lambda>c. c = k)) r) w \<longleftrightarrow> (\<exists>v. w = k # v \<and> matches r v)"
  unfolding matches_Class_Seq by blast

text \<open>
  The email pattern, read off: a non-empty run, an \<open>@\<close>, a non-empty run, a dot and a
  non-empty run, the three runs without \<open>@\<close> and without white space.
\<close>

lemma test_emailRx:
  "test emailRx s \<longleftrightarrow>
     (\<exists>a b c. s = a @ ''@'' @ b @ ''.'' @ c \<and> a \<noteq> [] \<and> b \<noteq> [] \<and> c \<noteq> []
        \<and> list_all (\<lambda>x. \<not> (x = CHR ''@'' \<or> space x)) (a @ b @ c))"
  (is "?L \<longleftrightarrow> ?R")
proof -
  let ?p = "\<lambda>x. \<not> (x = CHR ''@'' \<or> space x)"
  have nested: "?L \<longleftrightarrow>
      (\<exists>a v1. s = a @ v1 \<and> a \<noteq> [] \<and> list_all ?p a \<and>
        (\<exists>v2. v1 = CHR ''@'' # v2 \<and>
          (\<exists>b v3. v2 = b @ v3 \<and> b \<noteq> [] \<and> list_all ?p b \<and>
            (\<exists>c. v3 = CHR ''.'' # c \<and> c \<noteq> [] \<and> list_all ?p c))))"
    unfolding test_matches emailRx_def notAtOrSpace_def matches_run_then matches_char_then
      matches_oneOrMore_Class ..
  show ?thesis
  proof
    assume ?L
    then obtain a b c where "s = a @ CHR ''@'' # b @ CHR ''.'' # c" "a \<noteq> []" "b \<noteq> []" "c \<noteq> []"
      "list_all ?p a" "list_all ?p b" "list_all ?p c"
      unfolding nested by blast
    then show ?R by (intro exI [of _ a] exI [of _ b] exI [of _ c]) simp
  next
    assume ?R
    then obtain a b c where r: "s = a @ CHR ''@'' # b @ CHR ''.'' # c" "a \<noteq> []" "b \<noteq> []" "c \<noteq> []"
      "list_all ?p a" "list_all ?p b" "list_all ?p c"
      by auto
    have inner: "\<exists>c'. CHR ''.'' # c = CHR ''.'' # c' \<and> c' \<noteq> [] \<and> list_all ?p c'"
      using r(4,7) by blast
    have mid: "\<exists>b' v3. b @ CHR ''.'' # c = b' @ v3 \<and> b' \<noteq> [] \<and> list_all ?p b' \<and>
        (\<exists>c'. v3 = CHR ''.'' # c' \<and> c' \<noteq> [] \<and> list_all ?p c')"
      using r(3,6) inner by blast
    have outer: "\<exists>v2. CHR ''@'' # b @ CHR ''.'' # c = CHR ''@'' # v2 \<and>
        (\<exists>b' v3. v2 = b' @ v3 \<and> b' \<noteq> [] \<and> list_all ?p b' \<and>
          (\<exists>c'. v3 = CHR ''.'' # c' \<and> c' \<noteq> [] \<and> list_all ?p c'))"
      using mid by blast
    show ?L
      unfolding nested using r(1,2,5) outer by blast
  qed
qed

subsection \<open>Submission\<close>

lemma validationErrors_append:
  "validationErrors rt now bs f =
     (if nameMissing f then [(''name'', EmptyField)] else []) @
     (if phoneInvalid f then [(''phone'', InvalidPhone)] else []) @
     (if emailInvalid f then [(''email'', InvalidEmail)] else []) @
     (if inThePast rt now f then [(''date'', PastDateTime)] else []) @
     (if partySizeInvalid f then [(''partySize'', InvalidPartySize)] else []) @
     (if slotFull bs f then [(''time'', SlotFull)] else [])"
  by (simp add: validationErrors_def)

lemma validationErrors_Nil:
  "validationErrors rt now (bookings s) (form s) = [] \<longleftrightarrow> \<not> anyRuleFails rt now s"
  by (simp add: validationErrors_append anyRuleFails_def)

lemma handleSubmit_rejected:
  "anyRuleFails rt now s \<Longrightarrow>
     handleSubmit rt now newId stamp s
       = s\<lparr>errors := validationErrors rt now (bookings s) (form s), success := None\<rparr>"
  using validationErrors_Nil [of rt now s]
  by (simp add: handleSubmit_def validate_def Let_def)

lemma handleSubmit_accepted:
  "\<not> anyRuleFails rt now s \<Longrightarrow>
     handleSubmit rt now newId stamp s
       = s\<lparr>bookings := newBooking newId stamp (form s) # bookings s,
            form := (form s)\<lparr>name := [], phone := [], email := [], notes' := []\<rparr>,
            errors := [],
            success := Some (''Booking confirmed for '' @ date (form s) @ '' at '' @ time (form s))\<rparr>"
  using validationErrors_Nil [of rt now s]
  by (simp add: handleSubmit_def validate_def Let_def)

lemma handleSubmit_errors:
  "errors (handleSubmit rt now newId stamp s) = validationErrors rt now (bookings s) (form s)"
proof (cases "anyRuleFails rt now s")
  case True
  then show ?thesis by (simp add: handleSubmit_rejected)
next
  case False
  then show ?thesis using validationErrors_Nil [of rt now s] by (simp add: handleSubmit_accepted)
qed

lemma newBooking_slot [simp]:
  "date (newBooking newId stamp f) = date f" "time (newBooking newId stamp f) = time f"
  by (simp_all add: newBooking_def)

lemma countBookings_Cons:
  "countBookings (b # bs) d t =
     (if date b = d \<and> time b = t then Suc (countBookings bs d t) else countBookings bs d t)"
  by (simp add: countBookings_def)

lemma countBookings_filter_le:
  "countBookings (filter P bs) d t \<le> countBookings bs d t"
  unfolding countBookings_def
  by (induction bs) auto

lemma slotFull_iff: "slotFull bs f \<longleftrightarrow> 6 \<le> countBookings bs (date f) (time f)"
  by (simp add: slotFull_def availableTables_def MAX_TABLES_PER_SLOT_def)

text \<open>
  A submission adds a booking only to a slot that has a table left, and a cancellation
  takes bookings away: neither brings a slot above six.
\<close>

lemma handleSubmit_count_le:
  assumes "countBookings (bookings s) d t \<le> 6"
  shows "countBookings (bookings (handleSubmit rt now newId stamp s)) d t \<le> 6"
proof (cases "anyRuleFails rt now s")
  case True
  then show ?thesis using assms by (simp add: handleSubmit_rejected)
next
  case False
  then have "\<not> slotFull (bookings s) (form s)" by (simp add: anyRuleFails_def)
  then have "countBookings (bookings s) (date (form s)) (time (form s)) < 6"
    by (simp add: slotFull_iff)
  then show ?thesis using assms False
    by (auto simp: handleSubmit_accepted countBookings_Cons)
qed

lemma handleCancel_count_le:
  "countBookings (bookings (handleCancel confirmed i s)) d t \<le> countBookings (bookings s) d t"
  by (simp add: handleCancel_def countBookings_filter_le)


text \<open>
  A submission whose tests pass on the values of its render prepends to the bookings
  the state holds then, whatever they are.
\<close>

lemma handleSubmitOn_accepted:
  "validationErrors rt now (bookings r) (form r) = [] \<Longrightarrow>
     bookings (handleSubmitOn rt now newId stamp r s)
       = newBooking newId stamp (form r) # bookings s"
  by (simp add: handleSubmitOn_def Let_def)

lemma handleSubmitOn_rejected:
  "validationErrors rt now (bookings r) (form r) \<noteq> [] \<Longrightarrow>
     bookings (handleSubmitOn rt now newId stamp r s) = bookings s"
  by (simp add: handleSubmitOn_def Let_def)





text \<open>
  When the component renders between any two events, no slot ever holds more than six
  bookings, whatever the user edits, submits and cancels.
\<close>

lemma capacity_in_step:
  "inStep s \<Longrightarrow> countBookings (bookings s) d t \<le> 6"
proof (induction s rule: inStep.induct)
  case (start f e u)
  show ?case by (simp add: countBookings_def)
next
  case (edit s f e u)
  then show ?case by simp
next
  case (submit s rt now newId stamp)
  then show ?case by (simp add: handleSubmit_count_le)
next
  case (cancel s confirmed i)
  then show ?case using handleCancel_count_le [of confirmed i s d t] by simp
qed

text \<open>
  Seven submissions for the same slot, the component rendering after each: the slot
  holds six bookings, not seven.
\<close>

lemma seven_rounds_count:
  "countBookings (bookings (rounds 7 (startState anaForm))) ''2025-01-01'' ''18:00'' = 6"
  by code_simp





text \<open>
  The tests of \<open>validate\<close> against the rules of the specification: five of the six
  tests are the rule, and the test of the party size is the rule without the word
  integer.
\<close>

lemma trim_Nil_iff: "trim s = [] \<longleftrightarrow> list_all space s"
proof -
  have "trim s = [] \<longleftrightarrow> (\<forall>x\<in>set (dropWhile space s). space x)"
    by (simp add: trim_def)
  also have "\<dots> \<longleftrightarrow> dropWhile space s = []"
  proof
    assume a: "\<forall>x\<in>set (dropWhile space s). space x"
    show "dropWhile space s = []"
    proof (rule ccontr)
      assume n: "dropWhile space s \<noteq> []"
      then have "\<not> space (hd (dropWhile space s))" by (rule hd_dropWhile)
      moreover have "hd (dropWhile space s) \<in> set (dropWhile space s)" using n by (rule hd_in_set)
      ultimately show False using a by blast
    qed
  next
    assume e: "dropWhile space s = []"
    show "\<forall>x\<in>set (dropWhile space s). space x" unfolding e by simp
  qed
  also have "\<dots> \<longleftrightarrow> list_all space s"
    by (induction s) auto
  finally show ?thesis .
qed

lemma nameMissing_rule: "nameMissing f \<longleftrightarrow> nameRuleFails f"
  by (simp add: nameMissing_def nameRuleFails_def trim_Nil_iff)

lemma phoneInvalid_rule: "phoneInvalid f \<longleftrightarrow> phoneRuleFails f"
  by (simp add: phoneInvalid_def phoneRuleFails_def test_phoneRx list_all_iff)

lemma emailInvalid_rule: "emailInvalid f \<longleftrightarrow> emailRuleFails f"
  by (simp add: emailInvalid_def emailRuleFails_def test_emailRx)

lemma inThePast_rule:
  assumes "clockReading now"
  shows "inThePast rt now f \<longleftrightarrow> dateTimeRuleFails rt now f"
proof -
  have clip: "timeClip (now - 5 * 60 * 1000) = Some (now - 5 * 60 * 1000)"
    using assms by (simp add: clockReading_def timeClip_def msPerDay_def)
  show ?thesis
    unfolding inThePast_def clip dateLess_def dateTimeRuleFails_def
    by (cases "selected rt f") simp_all
qed

lemma partySizeInvalid_rule: "partySizeInvalid f \<longleftrightarrow> partySizeOutOfRange f"
  by (cases "partySize f") (simp_all add: partySizeInvalid_def partySizeOutOfRange_def)

lemma slotFull_rule: "slotFull bs f \<longleftrightarrow> availabilityRuleFails bs f"
  by (auto simp: slotFull_def availabilityRuleFails_def)

lemma partySizeRuleFails_iff:
  "partySizeRuleFails f \<longleftrightarrow>
     partySizeOutOfRange f \<or> (\<exists>q. partySize f = Num q \<and> \<not> wholeNumber q)"
  by (cases "partySize f") (auto simp: partySizeRuleFails_def partySizeOutOfRange_def)

lemma anyRuleFails_rules:
  assumes "clockReading now"
  shows "anyRuleFails rt now s \<longleftrightarrow>
     nameRuleFails (form s) \<or> phoneRuleFails (form s) \<or> emailRuleFails (form s)
     \<or> dateTimeRuleFails rt now (form s) \<or> partySizeOutOfRange (form s)
     \<or> availabilityRuleFails (bookings s) (form s)"
  unfolding anyRuleFails_def nameMissing_rule phoneInvalid_rule emailInvalid_rule
    inThePast_rule [OF assms] partySizeInvalid_rule slotFull_rule ..

lemma clockReading_noon: "clockReading noon"
  by (simp add: clockReading_def noon_def msPerDay_def)

text \<open>
  C3, with the fifth rule as the code tests it. When a rule fails (the name is blank,
  the phone has not 7 to 15 digits, the email is not of the form
  \<^verbatim>\<open>local-part@domain.tld\<close>, the date and time are more than five minutes in the past,
  the party size is not a number from 1 to 12, or the slot has no table left), the
  submission leaves the bookings as they were, reports no success and sets an error;
  when the slot of the form already holds six bookings or more, the error of the key
  \<open>time\<close> (SlotFull) is among them.
\<close>

theorem submit_rejected_keeps_store:
  assumes "clockReading now"
  shows "(nameRuleFails (form s) \<or> phoneRuleFails (form s) \<or> emailRuleFails (form s)
       \<or> dateTimeRuleFails rt now (form s) \<or> partySizeOutOfRange (form s)
       \<or> availabilityRuleFails (bookings s) (form s) \<longrightarrow>
      bookings (handleSubmit rt now newId stamp s) = bookings s \<and>
      success (handleSubmit rt now newId stamp s) = None \<and>
      errors (handleSubmit rt now newId stamp s) \<noteq> []) \<and>
   (6 \<le> countBookings (bookings s) (date (form s)) (time (form s)) \<longrightarrow>
      (''time'', SlotFull) \<in> set (errors (handleSubmit rt now newId stamp s)) \<and>
      bookings (handleSubmit rt now newId stamp s) = bookings s)"
proof (intro conjI impI)
  assume "nameRuleFails (form s) \<or> phoneRuleFails (form s) \<or> emailRuleFails (form s)
       \<or> dateTimeRuleFails rt now (form s) \<or> partySizeOutOfRange (form s)
       \<or> availabilityRuleFails (bookings s) (form s)"
  then have a: "anyRuleFails rt now s" by (simp add: anyRuleFails_rules [OF assms])
  then show "bookings (handleSubmit rt now newId stamp s) = bookings s"
    and "success (handleSubmit rt now newId stamp s) = None"
    by (simp_all add: handleSubmit_rejected)
  show "errors (handleSubmit rt now newId stamp s) \<noteq> []"
    using a validationErrors_Nil [of rt now s] by (simp add: handleSubmit_rejected)
next
  assume "6 \<le> countBookings (bookings s) (date (form s)) (time (form s))"
  then have full: "slotFull (bookings s) (form s)" by (simp add: slotFull_iff)
  then have a: "anyRuleFails rt now s" by (simp add: anyRuleFails_def)
  show "(''time'', SlotFull) \<in> set (errors (handleSubmit rt now newId stamp s))"
    using full by (simp add: handleSubmit_rejected [OF a] validationErrors_append)
  show "bookings (handleSubmit rt now newId stamp s) = bookings s"
    by (simp add: handleSubmit_rejected [OF a])
qed

text \<open>
  The scenario of the specification: the slot of 1 January 2025 at 18:00 holds six
  bookings and a seventh form for it is submitted.
\<close>

theorem submit_rejected_keeps_store_witness:
  "clockReading noon
   \<and> availabilityRuleFails (bookings (rounds 6 (startState anaForm))) anaForm
   \<and> 6 \<le> countBookings (bookings (rounds 6 (startState anaForm))) ''2025-01-01'' ''18:00''
   \<and> bookings (handleSubmit utcRuntime noon ''b6'' ''2025-01-01T12:00:00.000Z''
        ((rounds 6 (startState anaForm))\<lparr>form := anaForm\<rparr>))
      = bookings (rounds 6 (startState anaForm))
   \<and> success (handleSubmit utcRuntime noon ''b6'' ''2025-01-01T12:00:00.000Z''
        ((rounds 6 (startState anaForm))\<lparr>form := anaForm\<rparr>)) = None
   \<and> (''time'', SlotFull) \<in> set (errors (handleSubmit utcRuntime noon ''b6'' ''2025-01-01T12:00:00.000Z''
        ((rounds 6 (startState anaForm))\<lparr>form := anaForm\<rparr>)))"
proof -
  let ?s = "(rounds 6 (startState anaForm))\<lparr>form := anaForm\<rparr>"
  have six: "6 \<le> countBookings (bookings ?s) (date (form ?s)) (time (form ?s))"
    by code_simp
  have full: "availabilityRuleFails (bookings ?s) (form ?s)"
    using six by (simp add: slotFull_rule [symmetric] slotFull_iff)
  have slot: "date anaForm = ''2025-01-01''" "time anaForm = ''18:00''"
    by (simp_all add: anaForm_def)
  have st: "form ?s = anaForm" "bookings ?s = bookings (rounds 6 (startState anaForm))"
    by simp_all
  note t = submit_rejected_keeps_store
    [OF clockReading_noon, of ?s utcRuntime "''b6''" "''2025-01-01T12:00:00.000Z''"]
  have "bookings (handleSubmit utcRuntime noon ''b6'' ''2025-01-01T12:00:00.000Z'' ?s) = bookings ?s"
    and "success (handleSubmit utcRuntime noon ''b6'' ''2025-01-01T12:00:00.000Z'' ?s) = None"
    and "(''time'', SlotFull) \<in> set (errors (handleSubmit utcRuntime noon ''b6'' ''2025-01-01T12:00:00.000Z'' ?s))"
    using t full six by blast+
  then show ?thesis using clockReading_noon full six unfolding st slot by simp
qed

text \<open>
  The claim with the fifth rule as the specification words it fails. A party of three
  and a half is not an integer from 1 to 12, so the rule of the party size fails; the
  test of the code (\<^verbatim>\<open>Number(form.partySize) >= 1 && Number(form.partySize) <= 12\<close>)
  passes, and the submission stores a booking for three and a half guests.
\<close>

theorem submit_fractional_party_counterexample:
  "partySizeRuleFails halfForm
   \<and> bookings (startState halfForm) = []
   \<and> bookings (handleSubmit utcRuntime noon ''b0'' ''2025-01-01T12:00:00.000Z'' (startState halfForm))
      = [newBooking ''b0'' ''2025-01-01T12:00:00.000Z'' halfForm]
   \<and> partySize (newBooking ''b0'' ''2025-01-01T12:00:00.000Z'' halfForm) = Num (7 / 2)"
  by code_simp

text \<open>
  C4. When every test of \<open>validate\<close> passes, the submission puts one new booking in
  front of the bookings: the list is one longer, what was there follows unchanged and in
  its order, and the slot of the form has one table less.
\<close>

theorem submit_accepted_prepends:
  assumes "\<not> anyRuleFails rt now s"
  shows "bookings (handleSubmit rt now newId stamp s) = newBooking newId stamp (form s) # bookings s
    \<and> length (bookings (handleSubmit rt now newId stamp s)) = length (bookings s) + 1
    \<and> tl (bookings (handleSubmit rt now newId stamp s)) = bookings s
    \<and> availableTables (bookings (handleSubmit rt now newId stamp s)) (date (form s)) (time (form s))
        = availableTables (bookings s) (date (form s)) (time (form s)) - 1"
proof -
  have "\<not> slotFull (bookings s) (form s)" using assms by (simp add: anyRuleFails_def)
  then have "countBookings (bookings s) (date (form s)) (time (form s)) < 6"
    by (simp add: slotFull_iff)
  then show ?thesis
    using assms
    by (simp add: handleSubmit_accepted availableTables_def MAX_TABLES_PER_SLOT_def countBookings_Cons)
qed

lemma anaForm_passes: "\<not> anyRuleFails utcRuntime noon (startState anaForm)"
  by code_simp

theorem submit_accepted_prepends_witness:
  "\<not> anyRuleFails utcRuntime noon (startState anaForm)
   \<and> bookings (handleSubmit utcRuntime noon ''b0'' ''2025-01-01T12:00:00.000Z'' (startState anaForm))
      = [newBooking ''b0'' ''2025-01-01T12:00:00.000Z'' anaForm]
   \<and> availableTables (bookings (handleSubmit utcRuntime noon ''b0'' ''2025-01-01T12:00:00.000Z'' (startState anaForm)))
        ''2025-01-01'' ''18:00'' = 5"
proof -
  have s: "bookings (startState anaForm) = []" "form (startState anaForm) = anaForm"
    "date anaForm = ''2025-01-01''" "time anaForm = ''18:00''"
    by (simp_all add: startState_def anaForm_def)
  have a: "availableTables [] ''2025-01-01'' ''18:00'' = 6"
    by (simp add: availableTables_def countBookings_def MAX_TABLES_PER_SLOT_def)
  note t = submit_accepted_prepends [OF anaForm_passes, of "''b0''" "''2025-01-01T12:00:00.000Z''"]
  have "bookings (handleSubmit utcRuntime noon ''b0'' ''2025-01-01T12:00:00.000Z'' (startState anaForm))
      = [newBooking ''b0'' ''2025-01-01T12:00:00.000Z'' anaForm]"
    using t s by simp
  moreover have "availableTables (bookings (handleSubmit utcRuntime noon ''b0'' ''2025-01-01T12:00:00.000Z'' (startState anaForm)))
        ''2025-01-01'' ''18:00'' = availableTables [] ''2025-01-01'' ''18:00'' - 1"
    using t unfolding s by blast
  ultimately show ?thesis using anaForm_passes unfolding a by simp
qed

text \<open>
  C5, with the fifth rule as the code tests it. \<open>validate\<close> runs its six tests one
  after the other, whatever the earlier ones found: the key \<open>name\<close> is set exactly
  when the name is blank, \<open>phone\<close> exactly when the phone has not 7 to 15 digits,
  \<open>email\<close> exactly when the email is not of the form \<^verbatim>\<open>local-part@domain.tld\<close>,
  \<open>date\<close> exactly when the date and time are more than five minutes in the past,
  \<open>partySize\<close> exactly when the party size is not a number from 1 to 12, \<open>time\<close>
  exactly when the slot has no table left; no other key is ever set. In particular a
  form whose only fault is its email gets the single error of the key \<open>email\<close>.
\<close>

theorem validate_reports_each_violation:
  assumes "clockReading now"
  shows "map_of (errors (handleSubmit rt now newId stamp s)) ''name''
     = (if nameRuleFails (form s) then Some EmptyField else None)
   \<and> map_of (errors (handleSubmit rt now newId stamp s)) ''phone''
     = (if phoneRuleFails (form s) then Some InvalidPhone else None)
   \<and> map_of (errors (handleSubmit rt now newId stamp s)) ''email''
     = (if emailRuleFails (form s) then Some InvalidEmail else None)
   \<and> map_of (errors (handleSubmit rt now newId stamp s)) ''date''
     = (if dateTimeRuleFails rt now (form s) then Some PastDateTime else None)
   \<and> map_of (errors (handleSubmit rt now newId stamp s)) ''partySize''
     = (if partySizeOutOfRange (form s) then Some InvalidPartySize else None)
   \<and> map_of (errors (handleSubmit rt now newId stamp s)) ''time''
     = (if availabilityRuleFails (bookings s) (form s) then Some SlotFull else None)
   \<and> set (map fst (errors (handleSubmit rt now newId stamp s)))
       \<subseteq> {''name'', ''phone'', ''email'', ''date'', ''partySize'', ''time''}
   \<and> distinct (map fst (errors (handleSubmit rt now newId stamp s)))
   \<and> (emailRuleFails (form s) \<and> \<not> nameRuleFails (form s) \<and> \<not> phoneRuleFails (form s)
        \<and> \<not> dateTimeRuleFails rt now (form s) \<and> \<not> partySizeOutOfRange (form s)
        \<and> \<not> availabilityRuleFails (bookings s) (form s)
      \<longrightarrow> errors (handleSubmit rt now newId stamp s) = [(''email'', InvalidEmail)])"
  unfolding handleSubmit_errors validationErrors_append
    nameMissing_rule phoneInvalid_rule emailInvalid_rule inThePast_rule [OF assms]
    partySizeInvalid_rule slotFull_rule
  by simp

text \<open>The scenario of the specification: the form of Ana with the email \<open>not-an-email\<close>.\<close>

lemma not_an_email_tests:
  "emailInvalid (anaForm\<lparr>email := ''not-an-email''\<rparr>)"
  "\<not> nameMissing (anaForm\<lparr>email := ''not-an-email''\<rparr>)"
  "\<not> phoneInvalid (anaForm\<lparr>email := ''not-an-email''\<rparr>)"
  "\<not> inThePast utcRuntime noon (anaForm\<lparr>email := ''not-an-email''\<rparr>)"
  "\<not> partySizeInvalid (anaForm\<lparr>email := ''not-an-email''\<rparr>)"
  "\<not> slotFull [] (anaForm\<lparr>email := ''not-an-email''\<rparr>)"
  by code_simp+

theorem validate_reports_each_violation_witness:
  "clockReading noon
   \<and> emailRuleFails (anaForm\<lparr>email := ''not-an-email''\<rparr>)
   \<and> errors (handleSubmit utcRuntime noon ''b0'' ''2025-01-01T12:00:00.000Z''
        (startState (anaForm\<lparr>email := ''not-an-email''\<rparr>)))
      = [(''email'', InvalidEmail)]
   \<and> bookings (handleSubmit utcRuntime noon ''b0'' ''2025-01-01T12:00:00.000Z''
        (startState (anaForm\<lparr>email := ''not-an-email''\<rparr>))) = []"
proof -
  let ?f = "anaForm\<lparr>email := ''not-an-email''\<rparr>"
  have s: "form (startState ?f) = ?f" "bookings (startState ?f) = []"
    by (simp_all add: startState_def)
  have rules: "emailRuleFails ?f" "\<not> nameRuleFails ?f" "\<not> phoneRuleFails ?f"
    "\<not> dateTimeRuleFails utcRuntime noon ?f" "\<not> partySizeOutOfRange ?f"
    "\<not> availabilityRuleFails [] ?f"
    using not_an_email_tests
    unfolding nameMissing_rule phoneInvalid_rule emailInvalid_rule
      inThePast_rule [OF clockReading_noon] partySizeInvalid_rule slotFull_rule
    by blast+
  have fails: "anyRuleFails utcRuntime noon (startState ?f)"
    using not_an_email_tests(1) by (simp add: anyRuleFails_def s)
  have "errors (handleSubmit utcRuntime noon ''b0'' ''2025-01-01T12:00:00.000Z'' (startState ?f))
      = [(''email'', InvalidEmail)]"
    using validate_reports_each_violation
      [OF clockReading_noon, of utcRuntime "''b0''" "''2025-01-01T12:00:00.000Z''" "startState ?f"]
      rules
    unfolding s by blast
  moreover have "bookings (handleSubmit utcRuntime noon ''b0'' ''2025-01-01T12:00:00.000Z'' (startState ?f)) = []"
    using fails by (simp add: handleSubmit_rejected s)
  ultimately show ?thesis using rules(1) clockReading_noon by simp
qed

text \<open>
  The claim with the fifth rule as the specification words it fails. For a party of
  three and a half the rule of the party size is violated, and the error object has no
  key at all: the field \<open>partySize\<close> is not reported.
\<close>

theorem validate_fractional_party_counterexample:
  "partySizeRuleFails halfForm
   \<and> errors (handleSubmit utcRuntime noon ''b0'' ''2025-01-01T12:00:00.000Z'' (startState halfForm)) = []
   \<and> map_of (errors (handleSubmit utcRuntime noon ''b0'' ''2025-01-01T12:00:00.000Z''
        (startState halfForm))) ''partySize'' = None"
  by code_simp

text \<open>
  C6. The key \<open>date\<close> is set (PastDateTime) exactly when the date and time of the form,
  read as one timestamp by \<^verbatim>\<open>new Date\<close>, is a valid date earlier than the clock minus
  five minutes. A form ten minutes in the past is rejected; a form at or after the clock
  minus five minutes is not rejected by this test.
\<close>

theorem past_date_rejected:
  assumes "clockReading now"
  shows "((''date'', PastDateTime) \<in> set (errors (handleSubmit rt now newId stamp s))
           \<longleftrightarrow> (\<exists>t. selected rt (form s) = Some t \<and> t < now - 5 * 60 * 1000))
    \<and> (selected rt (form s) = Some (now - 10 * 60 * 1000)
           \<longrightarrow> (''date'', PastDateTime) \<in> set (errors (handleSubmit rt now newId stamp s)))
    \<and> (\<forall>t. selected rt (form s) = Some t \<and> now - 5 * 60 * 1000 \<le> t
           \<longrightarrow> (''date'', PastDateTime) \<notin> set (errors (handleSubmit rt now newId stamp s)))"
proof -
  have clip: "timeClip (now - 5 * 60 * 1000) = Some (now - 5 * 60 * 1000)"
    using assms by (simp add: clockReading_def timeClip_def msPerDay_def)
  have past: "inThePast rt now (form s) \<longleftrightarrow> (\<exists>t. selected rt (form s) = Some t \<and> t < now - 5 * 60 * 1000)"
    unfolding inThePast_def clip dateLess_def by (cases "selected rt (form s)") simp_all
  have key: "(''date'', PastDateTime) \<in> set (errors (handleSubmit rt now newId stamp s))
      \<longleftrightarrow> inThePast rt now (form s)"
    unfolding handleSubmit_errors validationErrors_append by simp
  show ?thesis unfolding key past by auto
qed

text \<open>
  The form for 18:00, submitted at 18:10 (\<open>1735755000000\<close>), is rejected; submitted at
  18:03 (\<open>1735754580000\<close>), inside the five minutes, it is not.
\<close>

theorem past_date_rejected_witness:
  "clockReading 1735755000000
   \<and> selected utcRuntime anaForm = Some (1735755000000 - 10 * 60 * 1000)
   \<and> (''date'', PastDateTime) \<in> set (errors (handleSubmit utcRuntime 1735755000000 ''b0''
         ''2025-01-01T18:10:00.000Z'' (startState anaForm)))
   \<and> clockReading 1735754580000
   \<and> (''date'', PastDateTime) \<notin> set (errors (handleSubmit utcRuntime 1735754580000 ''b0''
         ''2025-01-01T18:03:00.000Z'' (startState anaForm)))"
proof -
  have c: "clockReading 1735755000000" "clockReading 1735754580000"
    by (simp_all add: clockReading_def msPerDay_def)
  have sel: "selected utcRuntime (form (startState anaForm)) = Some 1735754400000"
    by code_simp
  have f: "form (startState anaForm) = anaForm" by (simp add: startState_def)
  have late: "(''date'', PastDateTime) \<in> set (errors (handleSubmit utcRuntime 1735755000000 ''b0''
         ''2025-01-01T18:10:00.000Z'' (startState anaForm)))"
    using past_date_rejected [OF c(1), of utcRuntime "''b0''" "''2025-01-01T18:10:00.000Z''" "startState anaForm"] sel
    by simp
  have early: "(''date'', PastDateTime) \<notin> set (errors (handleSubmit utcRuntime 1735754580000 ''b0''
         ''2025-01-01T18:03:00.000Z'' (startState anaForm)))"
    using past_date_rejected [OF c(2), of utcRuntime "''b0''" "''2025-01-01T18:03:00.000Z''" "startState anaForm"] sel
    by simp
  show ?thesis using c sel late early unfolding f by simp
qed

subsection \<open>The stored phone number\<close>

lemma filter_dropWhile_other:
  "(\<And>x. Q x \<Longrightarrow> \<not> P x) \<Longrightarrow> filter P (dropWhile Q xs) = filter P xs"
  by (induction xs) auto

lemma digit_not_space: "space c \<Longrightarrow> \<not> digit c"
  by (auto simp: digit_def space_def)

lemma filter_digit_trim: "filter digit (trim p) = filter digit p"
proof -
  have "filter digit (trim p) = rev (filter digit (dropWhile space (rev (dropWhile space p))))"
    by (simp add: trim_def rev_filter)
  also have "\<dots> = rev (filter digit (rev (dropWhile space p)))"
    by (simp add: filter_dropWhile_other digit_not_space)
  also have "\<dots> = filter digit (dropWhile space p)"
    by (simp add: rev_filter)
  also have "\<dots> = filter digit p"
    by (simp add: filter_dropWhile_other digit_not_space)
  finally show ?thesis .
qed

text \<open>
  C7, as the code has it. The booking stores the phone number as the user typed it,
  with the white space at both ends trimmed: the characters that are not digits stay.
  What validation guarantees is that the stored string holds 7 to 15 digits, the same
  digits in the same order as the input.
\<close>

theorem stored_phone_is_trimmed_input:
  assumes "\<not> anyRuleFails rt now s"
  shows "phone (hd (bookings (handleSubmit rt now newId stamp s))) = trim (phone (form s))
    \<and> filter digit (phone (hd (bookings (handleSubmit rt now newId stamp s))))
        = filter digit (phone (form s))
    \<and> 7 \<le> length (filter digit (phone (hd (bookings (handleSubmit rt now newId stamp s)))))
    \<and> length (filter digit (phone (hd (bookings (handleSubmit rt now newId stamp s))))) \<le> 15"
proof -
  have stored: "phone (hd (bookings (handleSubmit rt now newId stamp s))) = trim (phone (form s))"
    using assms by (simp add: handleSubmit_accepted newBooking_def)
  have "\<not> phoneInvalid (form s)" using assms by (simp add: anyRuleFails_def)
  then have "7 \<le> length (filter digit (phone (form s))) \<and> length (filter digit (phone (form s))) \<le> 15"
    by (simp add: phoneInvalid_def test_phoneRx)
  then show ?thesis unfolding stored filter_digit_trim by simp
qed

theorem stored_phone_is_trimmed_input_witness:
  "\<not> anyRuleFails utcRuntime noon (startState anaForm)
   \<and> phone (hd (bookings (handleSubmit utcRuntime noon ''b0'' ''2025-01-01T12:00:00.000Z'' (startState anaForm))))
      = trim ''123-456-7890''
   \<and> length (filter digit (phone (hd (bookings
        (handleSubmit utcRuntime noon ''b0'' ''2025-01-01T12:00:00.000Z'' (startState anaForm)))))) \<le> 15"
proof -
  have f: "phone (form (startState anaForm)) = ''123-456-7890''"
    by (simp add: startState_def anaForm_def)
  note t = stored_phone_is_trimmed_input [OF anaForm_passes, of "''b0''" "''2025-01-01T12:00:00.000Z''"]
  have "phone (hd (bookings (handleSubmit utcRuntime noon ''b0'' ''2025-01-01T12:00:00.000Z'' (startState anaForm))))
      = trim ''123-456-7890''"
    using t unfolding f by blast
  moreover have "length (filter digit (phone (hd (bookings
        (handleSubmit utcRuntime noon ''b0'' ''2025-01-01T12:00:00.000Z'' (startState anaForm)))))) \<le> 15"
    using t by blast
  ultimately show ?thesis using anaForm_passes by blast
qed

text \<open>
  The claim as the specification states it fails: the form of Ana is accepted and the
  stored phone number keeps its two hyphens.
\<close>

theorem stored_phone_counterexample:
  "success (handleSubmit utcRuntime noon ''b0'' ''2025-01-01T12:00:00.000Z'' (startState anaForm))
     = Some ''Booking confirmed for 2025-01-01 at 18:00''
   \<and> phone (hd (bookings (handleSubmit utcRuntime noon ''b0'' ''2025-01-01T12:00:00.000Z'' (startState anaForm))))
     = ''123-456-7890''
   \<and> \<not> list_all digit (phone (hd (bookings
        (handleSubmit utcRuntime noon ''b0'' ''2025-01-01T12:00:00.000Z'' (startState anaForm)))))"
  by code_simp

subsection \<open>Cancellation\<close>

text \<open>
  C10. A confirmed cancellation keeps, in their order, exactly the bookings whose id is
  not the given one; when no booking has that id the state is unchanged; cancelling
  twice is cancelling once. A cancellation the user declines changes nothing.
\<close>

theorem cancel_removes_matching:
  "bookings (handleCancel True i s) = filter (\<lambda>b. id' b \<noteq> i) (bookings s)
   \<and> i \<notin> id' ` set (bookings (handleCancel True i s))
   \<and> (i \<notin> id' ` set (bookings s) \<longrightarrow> handleCancel True i s = s)
   \<and> handleCancel True i (handleCancel True i s) = handleCancel True i s
   \<and> form (handleCancel True i s) = form s
   \<and> handleCancel False i s = s"
proof -
  have keep: "i \<notin> id' ` set (bookings s) \<Longrightarrow> filter (\<lambda>b. id' b \<noteq> i) (bookings s) = bookings s"
    by (auto simp: filter_id_conv)
  have gone: "i \<notin> id' ` set (filter (\<lambda>b. id' b \<noteq> i) (bookings s))"
    by auto
  show ?thesis using keep gone by (simp add: handleCancel_def)
qed

text \<open>
  Two bookings, \<open>b0\<close> in front of \<open>b1\<close>: cancelling an id that is not there changes
  nothing, cancelling \<open>b1\<close> leaves \<open>b0\<close>.
\<close>

theorem cancel_removes_matching_witness:
  "''zz'' \<notin> id' ` set (bookings (rounds 2 (startState anaForm)))
   \<and> handleCancel True ''zz'' (rounds 2 (startState anaForm)) = rounds 2 (startState anaForm)
   \<and> map id' (bookings (rounds 2 (startState anaForm))) = [''b0'', ''b1'']
   \<and> map id' (bookings (handleCancel True ''b1'' (rounds 2 (startState anaForm)))) = [''b0'']"
proof -
  have ids: "map id' (bookings (rounds 2 (startState anaForm))) = [''b0'', ''b1'']"
    by code_simp
  have absent: "''zz'' \<notin> id' ` set (bookings (rounds 2 (startState anaForm)))"
  proof -
    have "id' ` set (bookings (rounds 2 (startState anaForm)))
        = set (map id' (bookings (rounds 2 (startState anaForm))))"
      by simp
    then show ?thesis unfolding ids by simp
  qed
  have "map id' (bookings (handleCancel True ''b1'' (rounds 2 (startState anaForm)))) = [''b0'']"
    by code_simp
  then show ?thesis
    using cancel_removes_matching [of "''zz''" "rounds 2 (startState anaForm)"] ids absent
    by simp
qed

subsection \<open>The time slots\<close>

declare slotLoop.simps [code]

lemma slotLoop_stop: "\<not> b \<le> e \<Longrightarrow> slotLoop rt st (Some b) (Some e) slots = Some slots"
  by (subst slotLoop.simps) simp

lemma slotLoop_invalid: "slotLoop rt st None e slots = Some slots"
  by (subst slotLoop.simps) simp

lemma slotLoop_step:
  "b \<le> e \<Longrightarrow> slotLoop rt st (Some b) (Some e) slots =
     slotLoop rt st (setMinutes rt (getMinutes rt b + st) b) (Some e)
       (slots @ [padStart 2 (CHR ''0'') (String' (getHours rt b)) @ '':'' @
                 padStart 2 (CHR ''0'') (String' (getMinutes rt b))])"
  by (subst slotLoop.simps) (simp add: Let_def)

lemma time_parts:
  assumes "(l::int) mod 60000 = 1000 * s + ms"
    and "l mod 3600000 = 60000 * mi + l mod 60000"
    and "l mod 86400000 = 3600000 * h + l mod 3600000"
    and "l = 86400000 * d + l mod 86400000"
  shows "d * 86400000 + (h * 3600000 + m * 60000 + s * 1000 + ms) = l + (m - mi) * 60000"
  using assms by (simp add: algebra_simps)

lemma time_decomposition:
  "MakeDate (Day l) (MakeTime (HourFromTime l) m (SecFromTime l) (msFromTime l))
     = l + (m - MinFromTime l) * 60000"
proof -
  have a: "l mod 60000 = 1000 * ((l div 1000) mod 60) + l mod 1000"
    using zmod_zmult2_eq [of 60 l 1000] by simp
  have b: "l mod 3600000 = 60000 * ((l div 60000) mod 60) + l mod 60000"
    using zmod_zmult2_eq [of 60 l 60000] by simp
  have c: "l mod 86400000 = 3600000 * ((l div 3600000) mod 24) + l mod 3600000"
    using zmod_zmult2_eq [of 24 l 3600000] by simp
  have d: "l = 86400000 * (l div 86400000) + l mod 86400000"
    by simp
  show ?thesis
    unfolding MakeDate_def MakeTime_def Day_def HourFromTime_def MinFromTime_def SecFromTime_def
      msFromTime_def msPerDay_def
    by (rule time_parts [OF a b c d])
qed

lemma slotCount_step:
  assumes "0 < s" "b \<le> e"
  shows "slotCount b e s = Suc (slotCount (b + s) e s)"
proof (cases "b + s \<le> e")
  case True
  have "e - b = (e - (b + s)) + s" by simp
  then have "(e - b) div s = (e - (b + s)) div s + 1"
    using assms div_add_self2 [of s "e - (b + s)"] by simp
  moreover have "0 \<le> (e - (b + s)) div s" using True assms by (simp add: pos_imp_zdiv_nonneg_iff)
  ultimately show ?thesis using True assms by (simp add: slotCount_def nat_add_distrib)
next
  case False
  then have "(e - b) div s = 0" using assms by (simp add: div_pos_pos_trivial)
  then show ?thesis using False assms by (simp add: slotCount_def)
qed

lemma map_upt_Suc_shift: "map f [0..<Suc n] = f 0 # map (\<lambda>k. f (Suc k)) [0..<n]"
  by (simp add: map_upt_Suc del: upt_Suc)

declare decimalDigits.simps [simp del]

lemma less_ten: "(d::nat) < 10 \<Longrightarrow> d \<in> {0, 1, 2, 3, 4, 5, 6, 7, 8, 9}"
  by auto

lemma digit_nth: "d < 10 \<Longrightarrow> digit (''0123456789'' ! d)"
  using less_ten [of d] by (auto simp: digit_def)

lemma digitValue_nth: "d < 10 \<Longrightarrow> digitValue (''0123456789'' ! d) = d"
  using less_ten [of d] by (auto simp: digitValue_def)

lemma nth_digitValue: "digit a \<Longrightarrow> ''0123456789'' ! digitValue a = a"
  by (auto simp: digit_def digitValue_def)

lemma digitValue_less: "digit a \<Longrightarrow> digitValue a < 10"
  by (auto simp: digit_def digitValue_def)

lemma digit_not_colon: "digit a \<Longrightarrow> a \<noteq> CHR '':''"
  by (auto simp: digit_def)

lemma decimalDigits_small: "n < 10 \<Longrightarrow> decimalDigits n = [''0123456789'' ! n]"
  by (subst decimalDigits.simps) simp

lemma decimalDigits_two:
  assumes "\<not> n < 10" "n < 100"
  shows "decimalDigits n = [''0123456789'' ! (n div 10), ''0123456789'' ! (n mod 10)]"
proof -
  have "n div 10 < 10" using assms by simp
  then have "decimalDigits (n div 10) = [''0123456789'' ! (n div 10)]"
    by (rule decimalDigits_small)
  then show ?thesis using assms(1) by (subst decimalDigits.simps) simp
qed

lemma pad_two:
  assumes "n < 100"
  shows "padStart 2 (CHR ''0'') (decimalDigits n) = [''0123456789'' ! (n div 10), ''0123456789'' ! (n mod 10)]"
proof (cases "n < 10")
  case True
  then show ?thesis by (simp add: padStart_def decimalDigits_small)
next
  case False
  then show ?thesis using assms by (simp add: padStart_def decimalDigits_two)
qed

lemma pad_two_int:
  assumes "0 \<le> k" "k < 100"
  shows "padStart 2 (CHR ''0'') (String' k)
    = [''0123456789'' ! (nat k div 10), ''0123456789'' ! (nat k mod 10)]"
  using assms by (simp add: String'_def pad_two)

lemma clockText_shape:
  assumes "0 \<le> m" "m < 1440"
  shows "clockText m =
    [''0123456789'' ! (nat (m div 60) div 10), ''0123456789'' ! (nat (m div 60) mod 10), CHR '':'',
     ''0123456789'' ! (nat (m mod 60) div 10), ''0123456789'' ! (nat (m mod 60) mod 10)]"
proof -
  have "0 \<le> m div 60" "m div 60 < 100" "0 \<le> m mod 60" "m mod 60 < 100"
    using assms by presburger+
  then show ?thesis by (simp add: clockText_def pad_two_int)
qed

lemma twoDigits_nth:
  assumes "0 \<le> k" "k < 100"
  shows "twoDigits (''0123456789'' ! (nat k div 10)) (''0123456789'' ! (nat k mod 10)) = k"
proof -
  have "nat k div 10 < 10" "nat k mod 10 < 10" using assms by arith+
  then show ?thesis using assms by (simp add: twoDigits_def digitValue_nth)
qed

lemma minute_ranges:
  assumes "0 \<le> (m::int)" "m < 1440"
  shows "0 \<le> m div 60" "m div 60 < 24" "0 \<le> m mod 60" "m mod 60 < 60"
  using assms by presburger+

lemma small_digits:
  assumes "0 \<le> (k::int)" "k < 100"
  shows "nat k div 10 < 10" "nat k mod 10 < 10"
  using assms by arith+

lemma clockText_wellFormed:
  assumes "0 \<le> m" "m < 1440"
  shows "wellFormed (clockText m)" and "minutesOf (clockText m) = m"
proof -
  note r = minute_ranges [OF assms]
  have h: "0 \<le> m div 60" "m div 60 < 100" "0 \<le> m mod 60" "m mod 60 < 100"
    using r by simp_all
  note d = small_digits [OF h(1,2)] small_digits [OF h(3,4)]
  have t: "twoDigits (''0123456789'' ! (nat (m div 60) div 10)) (''0123456789'' ! (nat (m div 60) mod 10)) = m div 60"
    "twoDigits (''0123456789'' ! (nat (m mod 60) div 10)) (''0123456789'' ! (nat (m mod 60) mod 10)) = m mod 60"
    using h by (simp_all add: twoDigits_nth)
  have g: "digit (''0123456789'' ! (nat (m div 60) div 10))" "digit (''0123456789'' ! (nat (m div 60) mod 10))"
    "digit (''0123456789'' ! (nat (m mod 60) div 10))" "digit (''0123456789'' ! (nat (m mod 60) mod 10))"
    using d by (simp_all only: digit_nth)
  show "wellFormed (clockText m)"
    unfolding clockText_shape [OF assms] wellFormed_def
    by (simp only: list.case g t r simp_thms)
  show "minutesOf (clockText m) = m"
    unfolding clockText_shape [OF assms] minutesOf_def
    by (simp only: list.case t mult_div_mod_eq)
qed

lemma wellFormed_cases:
  assumes "wellFormed s"
  obtains a b d e where "s = [a, b, CHR '':'', d, e]" "digit a" "digit b" "digit d" "digit e"
    "twoDigits a b < 24" "twoDigits d e < 60"
  using assms
  by (auto simp: wellFormed_def split: list.splits)

lemma twoDigits_parts:
  assumes "digit a" "digit b"
  shows "nat (twoDigits a b) div 10 = digitValue a" "nat (twoDigits a b) mod 10 = digitValue b"
    "0 \<le> twoDigits a b"
proof -
  have n: "nat (twoDigits a b) = 10 * digitValue a + digitValue b"
    by (simp only: twoDigits_def nat_int)
  show "nat (twoDigits a b) div 10 = digitValue a" "nat (twoDigits a b) mod 10 = digitValue b"
    unfolding n using digitValue_less [OF assms(2)] by simp_all
  show "0 \<le> twoDigits a b" by (simp add: twoDigits_def)
qed

lemma minutesOf_range:
  assumes "wellFormed s"
  shows "0 \<le> minutesOf s" "minutesOf s < 1440"
proof -
  obtain a b d e where s: "s = [a, b, CHR '':'', d, e]" "digit a" "digit b" "digit d" "digit e"
    "twoDigits a b < 24" "twoDigits d e < 60"
    using assms by (rule wellFormed_cases)
  have "0 \<le> twoDigits a b" "0 \<le> twoDigits d e" by (simp_all add: twoDigits_def)
  then show "0 \<le> minutesOf s" "minutesOf s < 1440"
    using s by (simp_all add: minutesOf_def)
qed

lemma clockText_minutesOf:
  assumes "wellFormed s"
  shows "clockText (minutesOf s) = s"
proof -
  obtain a b d e where s: "s = [a, b, CHR '':'', d, e]" "digit a" "digit b" "digit d" "digit e"
    "twoDigits a b < 24" "twoDigits d e < 60"
    using assms by (rule wellFormed_cases)
  have nn: "0 \<le> twoDigits a b" "0 \<le> twoDigits d e" by (simp_all add: twoDigits_def)
  have m: "minutesOf s = 60 * twoDigits a b + twoDigits d e" using s by (simp add: minutesOf_def)
  have dv: "minutesOf s div 60 = twoDigits a b" "minutesOf s mod 60 = twoDigits d e"
    using s nn unfolding m by simp_all
  show ?thesis
    unfolding clockText_shape [OF minutesOf_range [OF assms]] dv
    using s by (simp add: twoDigits_parts nth_digitValue)
qed

lemma split_clock:
  assumes "digit a" "digit b" "digit d" "digit e"
  shows "split (CHR '':'') [a, b, CHR '':'', d, e] = [[a, b], [d, e]]"
  using assms by (simp add: digit_not_colon)

lemma ToInteger_of_int: "ToInteger (of_int k) = k"
  by (simp add: ToInteger_def)

lemma minutesOf_parts:
  assumes "digit a" "digit b" "digit d" "digit e" "twoDigits d e < 60"
  shows "minutesOf [a, b, CHR '':'', d, e] div 60 = twoDigits a b"
    and "minutesOf [a, b, CHR '':'', d, e] mod 60 = twoDigits d e"
proof -
  have "0 \<le> twoDigits d e" by (simp add: twoDigits_def)
  then show "minutesOf [a, b, CHR '':'', d, e] div 60 = twoDigits a b"
    and "minutesOf [a, b, CHR '':'', d, e] mod 60 = twoDigits d e"
    using assms(5) by (simp_all add: minutesOf_def)
qed

lemma hoursAndMinutes_wellFormed:
  assumes "readsTwoDigits rt" "wellFormed s"
  shows "hoursAndMinutes rt s = (Num (of_int (minutesOf s div 60)), Num (of_int (minutesOf s mod 60)))"
proof -
  obtain a b d e where s: "s = [a, b, CHR '':'', d, e]" "digit a" "digit b" "digit d" "digit e"
    "twoDigits a b < 24" "twoDigits d e < 60"
    using assms(2) by (rule wellFormed_cases)
  have n: "toNumber rt [a, b] = Num (of_int (twoDigits a b))" "toNumber rt [d, e] = Num (of_int (twoDigits d e))"
    using assms(1) s by (simp_all add: readsTwoDigits_def)
  show ?thesis
    unfolding s(1) hoursAndMinutes_def split_clock [OF s(2-5)] minutesOf_parts [OF s(2-5) s(7)]
    by (simp add: n)
qed

lemma day_bounds: "Day x * msPerDay \<le> x" "x < Day x * msPerDay + msPerDay"
proof -
  have e: "x = Day x * msPerDay + x mod msPerDay" by (simp add: Day_def)
  have r: "0 \<le> x mod msPerDay" "x mod msPerDay < msPerDay"
    by (simp_all add: msPerDay_def)
  show "Day x * msPerDay \<le> x" using e r(1) by linarith
  show "x < Day x * msPerDay + msPerDay" using e r(2) by linarith
qed

lemma slot_in_range:
  assumes "clockReading now" "0 \<le> m" "m < 1440"
  shows "\<bar>Day (now + c) * msPerDay - c + m * 60000\<bar> \<le> 8640000000000000"
proof -
  have "m * 60000 < msPerDay" "0 \<le> m * 60000" using assms by (simp_all add: msPerDay_def)
  then show ?thesis
    using day_bounds [of "now + c"] assms(1)
    unfolding clockReading_def by linarith
qed

lemma slotCount_bound:
  assumes "0 < st" "k < slotCount lo hi st"
  shows "lo + int k * st \<le> hi"
proof -
  have le: "lo \<le> hi" using assms(2) by (simp add: slotCount_def split: if_splits)
  have "0 \<le> (hi - lo) div st" using le assms(1) by (simp add: pos_imp_zdiv_nonneg_iff)
  then have "int k \<le> (hi - lo) div st" using assms(2) le by (simp add: slotCount_def)
  then have "int k * st \<le> ((hi - lo) div st) * st" using assms(1) by (simp add: mult_right_mono)
  also have "\<dots> \<le> hi - lo"
    using div_mult_mod_eq [of "hi - lo" st] pos_mod_sign [OF assms(1), of "hi - lo"] by linarith
  finally show ?thesis by simp
qed

lemma slotCount_pos: "lo \<le> hi \<Longrightarrow> 0 < slotCount lo hi st"
  by (simp add: slotCount_def)

lemma slotCount_last:
  assumes "0 < st" "lo \<le> hi" "(hi - lo) mod st = 0"
  shows "lo + int (slotCount lo hi st - 1) * st = hi"
proof -
  have "0 \<le> (hi - lo) div st" using assms by (simp add: pos_imp_zdiv_nonneg_iff)
  then have "int (slotCount lo hi st - 1) = (hi - lo) div st" using assms(2) by (simp add: slotCount_def)
  moreover have "(hi - lo) div st * st = hi - lo"
    using div_mult_mod_eq [of "hi - lo" st] assms(3) by simp
  ultimately show ?thesis by simp
qed

text \<open>Earlier times of day are smaller strings.\<close>

lemma digit_code: "digit x \<Longrightarrow> (of_char x :: nat) = 48 + digitValue x"
  by (auto simp: digit_def digitValue_def)

lemma digit_less_iff:
  "digit x \<Longrightarrow> digit y \<Longrightarrow> ((of_char x :: nat) < of_char y) = (digitValue x < digitValue y)"
  by (simp add: digit_code)

lemma digit_eq_iff:
  assumes "digit x" "digit y"
  shows "(x = y) = (digitValue x = digitValue y)"
proof
  assume "digitValue x = digitValue y"
  then have "''0123456789'' ! digitValue x = ''0123456789'' ! digitValue y" by (rule arg_cong)
  then show "x = y" by (simp only: nth_digitValue [OF assms(1)] nth_digitValue [OF assms(2)])
qed simp

lemma lex_step:
  fixes k x y r1 r2 :: nat
  assumes "r2 < k" "k * x + r1 < k * y + r2"
  shows "x < y \<or> (x = y \<and> r1 < r2)"
proof (cases "x \<le> y")
  case True
  then show ?thesis using assms(2) by (cases "x = y") auto
next
  case False
  then have "Suc y \<le> x" by simp
  then have "k * Suc y \<le> k * x" by (rule mult_le_mono2)
  then show ?thesis using assms by simp
qed

lemma lexicographic_minutes:
  fixes a1 a2 a3 a4 b1 b2 b3 b4 :: nat
  assumes "a2 < 10" "a4 < 10" "b2 < 10" "b4 < 10" "10 * a3 + a4 < 60" "10 * b3 + b4 < 60"
    and "60 * (10 * a1 + a2) + (10 * a3 + a4) < 60 * (10 * b1 + b2) + (10 * b3 + b4)"
  shows "a1 < b1 \<or> (a1 = b1 \<and> (a2 < b2 \<or> (a2 = b2 \<and> (a3 < b3 \<or> (a3 = b3 \<and> a4 < b4)))))"
proof -
  consider (hours) "10 * a1 + a2 < 10 * b1 + b2"
    | (minutes) "10 * a1 + a2 = 10 * b1 + b2" "10 * a3 + a4 < 10 * b3 + b4"
    using lex_step [OF assms(6,7)] by blast
  then show ?thesis
  proof cases
    case hours
    then show ?thesis using lex_step [where k=10 and x=a1 and y=b1 and ?r1.0=a2 and ?r2.0=b2] assms(3) by blast
  next
    case minutes
    have "a1 = b1 \<and> a2 = b2"
      using lex_step [where k=10 and x=a1 and y=b1 and ?r1.0=a2 and ?r2.0=b2]
        lex_step [where k=10 and x=b1 and y=a1 and ?r1.0=b2 and ?r2.0=a2] assms(1,3) minutes(1)
      by (cases "a1 = b1") auto
    moreover have "a3 < b3 \<or> (a3 = b3 \<and> a4 < b4)"
      using lex_step [OF assms(4) minutes(2)] .
    ultimately show ?thesis by blast
  qed
qed

lemma textLess_wellFormed:
  assumes "wellFormed s" "wellFormed t" "minutesOf s < minutesOf t"
  shows "textLess s t"
proof -
  obtain a1 a2 a3 a4 where s: "s = [a1, a2, CHR '':'', a3, a4]" "digit a1" "digit a2" "digit a3" "digit a4"
    "twoDigits a1 a2 < 24" "twoDigits a3 a4 < 60"
    using assms(1) by (rule wellFormed_cases)
  obtain b1 b2 b3 b4 where t: "t = [b1, b2, CHR '':'', b3, b4]" "digit b1" "digit b2" "digit b3" "digit b4"
    "twoDigits b1 b2 < 24" "twoDigits b3 b4 < 60"
    using assms(2) by (rule wellFormed_cases)
  have lt: "60 * (10 * digitValue a1 + digitValue a2) + (10 * digitValue a3 + digitValue a4)
      < 60 * (10 * digitValue b1 + digitValue b2) + (10 * digitValue b3 + digitValue b4)"
    using assms(3) unfolding s(1) t(1) minutesOf_def twoDigits_def by simp
  have m: "10 * digitValue a3 + digitValue a4 < 60" "10 * digitValue b3 + digitValue b4 < 60"
    using s(7) t(7) unfolding twoDigits_def by simp_all
  note lex = lexicographic_minutes [OF digitValue_less [OF s(3)] digitValue_less [OF s(5)]
      digitValue_less [OF t(3)] digitValue_less [OF t(5)] m lt]
  show ?thesis
    unfolding s(1) t(1)
    using lex s(2-5) t(2-5)
    by (simp add: digit_less_iff digit_eq_iff)
qed

text \<open>A quiet day: how the loop runs on it.\<close>

lemma Day_unique:
  assumes "d * msPerDay \<le> x" "x < d * msPerDay + msPerDay"
  shows "Day x = d"
proof -
  have r: "0 \<le> x - d * msPerDay" "x - d * msPerDay < msPerDay"
    using assms by simp_all
  have "x = (x - d * msPerDay) + d * msPerDay" by simp
  then have "x div msPerDay = (x - d * msPerDay + d * msPerDay) div msPerDay" by simp
  also have "\<dots> = d + (x - d * msPerDay) div msPerDay"
    by (rule div_mult_self1) (simp add: msPerDay_def)
  also have "(x - d * msPerDay) div msPerDay = 0"
    using r by (rule div_pos_pos_trivial)
  finally show ?thesis by (simp add: Day_def)
qed

lemma minute_in_day:
  assumes "0 \<le> (m::int)" "m < 1440"
  shows "0 \<le> m * 60000" "m * 60000 < msPerDay"
  using assms by (simp_all add: msPerDay_def)

lemma quietDay_facts:
  assumes q: "quietDay rt now"
  shows "\<And>t. Day (now + tzaOfUTC rt now) * msPerDay - tzaOfUTC rt now \<le> t
          \<Longrightarrow> t < Day (now + tzaOfUTC rt now) * msPerDay - tzaOfUTC rt now + msPerDay
          \<Longrightarrow> tzaOfUTC rt t = tzaOfUTC rt now"
    and "\<And>l. Day (now + tzaOfUTC rt now) * msPerDay \<le> l
          \<Longrightarrow> l < Day (now + tzaOfUTC rt now) * msPerDay + msPerDay
          \<Longrightarrow> tzaOfLocal rt l = tzaOfUTC rt now"
    and "\<And>l. Day (now + tzaOfUTC rt now) * msPerDay + msPerDay \<le> l
          \<Longrightarrow> Day (now + tzaOfUTC rt now) * msPerDay - tzaOfUTC rt now + msPerDay \<le> UTC rt l"
proof -
  let ?c = "tzaOfUTC rt now"
  let ?b = "Day (now + ?c) * msPerDay - ?c"
  have b: "localMidnight rt now = ?b" by (simp add: localMidnight_def LocalTime_def)
  have bc: "?b + ?c = Day (now + ?c) * msPerDay" by simp
  from q have q1: "\<forall>t. ?b \<le> t \<and> t < ?b + msPerDay \<longrightarrow> tzaOfUTC rt t = ?c"
    and q2: "\<forall>l. ?b + ?c \<le> l \<and> l < ?b + ?c + msPerDay \<longrightarrow> tzaOfLocal rt l = ?c"
    and q3: "\<forall>l. ?b + ?c + msPerDay \<le> l \<longrightarrow> ?b + msPerDay \<le> UTC rt l"
    unfolding quietDay_def Let_def b by blast+
  show "\<And>t. ?b \<le> t \<Longrightarrow> t < ?b + msPerDay \<Longrightarrow> tzaOfUTC rt t = ?c"
    using q1 by blast
  show "\<And>l. Day (now + ?c) * msPerDay \<le> l \<Longrightarrow> l < Day (now + ?c) * msPerDay + msPerDay
      \<Longrightarrow> tzaOfLocal rt l = ?c"
    using q2 unfolding bc by blast
  show "\<And>l. Day (now + ?c) * msPerDay + msPerDay \<le> l \<Longrightarrow> ?b + msPerDay \<le> UTC rt l"
    using q3 unfolding bc by blast
qed

lemma setMinutes_local:
  "setMinutes rt (getMinutes rt t + st) t = timeClip (UTC rt (LocalTime rt t + st * 60000))"
  by (simp add: setMinutes_def Let_def getMinutes_def time_decomposition)

lemma setHours_local:
  "setHours rt (Num (of_int (m div 60))) (Num (of_int (m mod 60))) (Some t)
     = timeClip (UTC rt (Day (LocalTime rt t) * msPerDay + m * 60000))"
proof -
  have "m = (m div 60) * 60 + m mod 60" by simp
  then have "m * 60000 = ((m div 60) * 60 + m mod 60) * 60000" by simp
  then have "(m div 60) * 3600000 + (m mod 60) * 60000 = m * 60000"
    by (simp only: distrib_right mult.assoc)
  then show ?thesis
    by (simp add: setHours_def ToInteger_of_int MakeDate_def MakeTime_def)
qed

lemma label_local:
  assumes "LocalTime rt t = d * msPerDay + m * 60000" "0 \<le> m" "m < 1440"
  shows "label rt t = clockText m"
proof -
  have "(d * 86400000 + m * 60000) div 3600000 = d * 24 + m div 60"
  proof -
    have "(d * 86400000 + m * 60000) = (d * 1440 + m) * 60000" by simp
    then have "(d * 86400000 + m * 60000) div 3600000 = ((d * 1440 + m) * 60000) div (60 * 60000)"
      by simp
    also have "\<dots> = (d * 1440 + m) div 60" by (simp only: div_mult_mult2)
    also have "\<dots> = d * 24 + m div 60"
      using div_mult_self3 [of 60 m "d * 24"] by (simp add: algebra_simps)
    finally show ?thesis .
  qed
  then have h: "HourFromTime (d * msPerDay + m * 60000) = m div 60"
    using minute_ranges [OF assms(2,3)] by (simp add: HourFromTime_def msPerDay_def)
  have "(d * 86400000 + m * 60000) div 60000 = d * 1440 + m"
  proof -
    have "(d * 86400000 + m * 60000) = (d * 1440 + m) * 60000" by simp
    then show ?thesis by simp
  qed
  moreover have "(d * 1440 + m) mod 60 = m mod 60"
    using mod_mult_self3 [of "d * 24" 60 m] by (simp add: algebra_simps)
  ultimately have mi: "MinFromTime (d * msPerDay + m * 60000) = m mod 60"
    by (simp add: MinFromTime_def msPerDay_def mult.commute)
  show ?thesis
    by (simp add: label_def getHours_def getMinutes_def assms(1) h mi clockText_def)
qed

lemma slotLoop_quiet:
  assumes utc: "\<And>t. b0 \<le> t \<Longrightarrow> t < b0 + msPerDay \<Longrightarrow> tzaOfUTC rt t = c"
    and loc: "\<And>l. b0 + c \<le> l \<Longrightarrow> l < b0 + c + msPerDay \<Longrightarrow> tzaOfLocal rt l = c"
    and later: "\<And>l. b0 + c + msPerDay \<le> l \<Longrightarrow> b0 + msPerDay \<le> UTC rt l"
    and day: "b0 + c = d * msPerDay"
    and range: "\<And>k. 0 \<le> k \<Longrightarrow> k < 1440 \<Longrightarrow> \<bar>b0 + k * 60000\<bar> \<le> 8640000000000000"
    and st: "0 < st" and cl: "cl < 1440"
  shows "0 \<le> m \<Longrightarrow>
    slotLoop rt st (Some (b0 + m * 60000)) (Some (b0 + cl * 60000)) acc
      = Some (acc @ map (\<lambda>k. clockText (m + int k * st)) [0..<slotCount m cl st])"
proof (induction "slotCount m cl st" arbitrary: m acc)
  case 0
  then have "\<not> m \<le> cl" by (simp add: slotCount_def split: if_splits)
  then have "\<not> b0 + m * 60000 \<le> b0 + cl * 60000" by simp
  then show ?case using 0 by (simp add: slotLoop_stop)
next
  case (Suc n)
  let ?b = "b0 + m * 60000" and ?e = "b0 + cl * 60000"
  have mcl: "m \<le> cl" using Suc.hyps(2) by (simp add: slotCount_def split: if_splits)
  have m: "0 \<le> m" "m < 1440" using Suc.prems mcl cl by simp_all
  note md = minute_in_day [OF m]
  have n: "slotCount (m + st) cl st = n" using slotCount_step [OF st mcl] Suc.hyps(2) by simp
  have "tzaOfUTC rt ?b = c" using md by (intro utc) simp_all
  then have local: "LocalTime rt ?b = d * msPerDay + m * 60000"
    using day by (simp add: LocalTime_def)
  have lab: "label rt ?b = clockText m" by (rule label_local [OF local m])
  have be: "?b \<le> ?e" using mcl by simp
  have next_local: "LocalTime rt ?b + st * 60000 = d * msPerDay + (m + st) * 60000"
    unfolding local by (simp add: algebra_simps)
  have step: "slotLoop rt st (Some ?b) (Some ?e) acc
      = slotLoop rt st (timeClip (UTC rt (d * msPerDay + (m + st) * 60000))) (Some ?e)
          (acc @ [clockText m])"
    using lab by (simp add: slotLoop_step [OF be] setMinutes_local next_local label_def)
  show ?case
  proof (cases "m + st \<le> cl")
    case True
    then have ms: "0 \<le> m + st" "m + st < 1440" using m(1) st cl by simp_all
    note msd = minute_in_day [OF ms]
    have "tzaOfLocal rt (d * msPerDay + (m + st) * 60000) = c"
      using msd day by (intro loc) simp_all
    then have u: "UTC rt (d * msPerDay + (m + st) * 60000) = b0 + (m + st) * 60000"
      using day by (simp add: UTC_def)
    have clip: "timeClip (b0 + (m + st) * 60000) = Some (b0 + (m + st) * 60000)"
      using range [OF ms] by (simp add: timeClip_def)
    have "slotLoop rt st (Some (b0 + (m + st) * 60000)) (Some ?e) (acc @ [clockText m])
        = Some ((acc @ [clockText m]) @ map (\<lambda>k. clockText (m + st + int k * st)) [0..<n])"
      using Suc.hyps(1) [of "m + st" "acc @ [clockText m]"] n ms(1) by simp
    also have "\<dots> = Some (acc @ map (\<lambda>k. clockText (m + int k * st)) [0..<Suc n])"
      by (simp add: map_upt_Suc_shift algebra_simps del: upt_Suc)
    finally show ?thesis using step u clip Suc.hyps(2) by simp
  next
    case False
    then have n0: "n = 0" using n by (simp add: slotCount_def)
    have after: "?e < UTC rt (d * msPerDay + (m + st) * 60000)"
    proof (cases "m + st < 1440")
      case True
      then have ms: "0 \<le> m + st" "m + st < 1440" using m(1) st by simp_all
      note msd = minute_in_day [OF ms]
      have "tzaOfLocal rt (d * msPerDay + (m + st) * 60000) = c"
        using msd day by (intro loc) simp_all
      then have "UTC rt (d * msPerDay + (m + st) * 60000) = b0 + (m + st) * 60000"
        using day by (simp add: UTC_def)
      then show ?thesis using False by simp
    next
      case False
      then have "msPerDay \<le> (m + st) * 60000" by (simp add: msPerDay_def)
      then have "b0 + c + msPerDay \<le> d * msPerDay + (m + st) * 60000" using day by simp
      then have "b0 + msPerDay \<le> UTC rt (d * msPerDay + (m + st) * 60000)" by (rule later)
      moreover have "cl * 60000 < msPerDay" using cl by (simp add: msPerDay_def)
      ultimately show ?thesis by simp
    qed
    have "slotLoop rt st (timeClip (UTC rt (d * msPerDay + (m + st) * 60000))) (Some ?e)
        (acc @ [clockText m]) = Some (acc @ [clockText m])"
    proof (cases "timeClip (UTC rt (d * msPerDay + (m + st) * 60000))")
      case None
      then show ?thesis by (simp add: slotLoop_invalid)
    next
      case (Some x)
      then have "x = UTC rt (d * msPerDay + (m + st) * 60000)"
        by (simp add: timeClip_def split: if_splits)
      then have "\<not> x \<le> ?e" using after by simp
      then show ?thesis using Some by (simp add: slotLoop_stop)
    qed
    then show ?thesis using step n0 Suc.hyps(2) [symmetric] by simp
  qed
qed

text \<open>
  What the function returns on a quiet day, both readings of the clock on that day: the
  texts of the minutes \<open>open\<close>, \<open>open + step\<close>, ... up to \<open>close\<close>.
\<close>

lemma generateTimeSlots_quiet:
  assumes rd: "readsTwoDigits rt" and q: "quietDay rt now1" and sd: "sameLocalDay rt now1 now2"
    and c1: "clockReading now1"
    and wo: "wellFormed open'" and wc: "wellFormed close" and st: "0 < st"
  shows "generateTimeSlots rt now1 now2 open' close st
    = Some (map (\<lambda>k. clockText (minutesOf open' + int k * st))
             [0..<slotCount (minutesOf open') (minutesOf close) st])"
proof -
  let ?o = "minutesOf open'" and ?c = "minutesOf close"
  let ?z = "tzaOfUTC rt now1"
  let ?d = "Day (now1 + ?z)"
  let ?B = "?d * msPerDay - ?z"
  note ro = minutesOf_range [OF wo] and rc = minutesOf_range [OF wc]
  note qf = quietDay_facts [OF q]
  have bz: "?B + ?z = ?d * msPerDay" by simp
  have utc: "\<And>t. ?B \<le> t \<Longrightarrow> t < ?B + msPerDay \<Longrightarrow> tzaOfUTC rt t = ?z"
    by (rule qf(1))
  have loc: "\<And>l. ?B + ?z \<le> l \<Longrightarrow> l < ?B + ?z + msPerDay \<Longrightarrow> tzaOfLocal rt l = ?z"
    unfolding bz by (rule qf(2))
  have later: "\<And>l. ?B + ?z + msPerDay \<le> l \<Longrightarrow> ?B + msPerDay \<le> UTC rt l"
    unfolding bz by (rule qf(3))
  have range: "\<And>k. 0 \<le> k \<Longrightarrow> k < 1440 \<Longrightarrow> \<bar>?B + k * 60000\<bar> \<le> 8640000000000000"
    by (rule slot_in_range [OF c1])
  have inday: "UTC rt (?d * msPerDay + k * 60000) = ?B + k * 60000" if "0 \<le> k" "k < 1440" for k
  proof -
    have "tzaOfLocal rt (?d * msPerDay + k * 60000) = ?z"
      using minute_in_day [OF that] by (intro qf(2)) simp_all
    then show ?thesis by (simp add: UTC_def)
  qed
  have l1: "Day (LocalTime rt now1) = ?d" by (simp add: LocalTime_def)
  have mid: "localMidnight rt now1 = ?B" by (simp add: localMidnight_def LocalTime_def)
  have n2: "?B \<le> now2" "now2 < ?B + msPerDay"
    using sd unfolding sameLocalDay_def mid by simp_all
  have "tzaOfUTC rt now2 = ?z" using n2 by (rule utc)
  then have "LocalTime rt now2 = now2 + ?z" by (simp add: LocalTime_def)
  moreover have "Day (now2 + ?z) = ?d"
    using n2 by (intro Day_unique) simp_all
  ultimately have l2: "Day (LocalTime rt now2) = ?d" by simp
  have base: "setHours rt (Num (of_int (?o div 60))) (Num (of_int (?o mod 60))) (Some now1)
      = Some (?B + ?o * 60000)"
    using range [OF ro] by (simp add: setHours_local l1 inday [OF ro] timeClip_def)
  have end': "setHours rt (Num (of_int (?c div 60))) (Num (of_int (?c mod 60))) (Some now2)
      = Some (?B + ?c * 60000)"
    using range [OF rc] by (simp add: setHours_local l2 inday [OF rc] timeClip_def)
  have "generateTimeSlots rt now1 now2 open' close st
      = slotLoop rt st (Some (?B + ?o * 60000)) (Some (?B + ?c * 60000)) []"
    by (simp add: generateTimeSlots_def hoursAndMinutes_wellFormed [OF rd wo]
        hoursAndMinutes_wellFormed [OF rd wc] base end')
  also have "\<dots> = Some ([] @ map (\<lambda>k. clockText (?o + int k * st)) [0..<slotCount ?o ?c st])"
    by (rule slotLoop_quiet [OF utc loc later bz range st rc(2) ro(1)])
  finally show ?thesis by simp
qed

text \<open>The runtimes of the examples meet the conditions.\<close>

lemma decimal_two: "decimal [a, b] = 10 * digitValue a + digitValue b"
  by (simp add: decimal_def)

lemma readsTwoDigits_utcRuntime: "readsTwoDigits utcRuntime"
  by (simp add: readsTwoDigits_def utcRuntime_def decimalNumber_def decimal_two twoDigits_def)

lemma readsTwoDigits_newYorkRuntime: "readsTwoDigits newYorkRuntime"
  by (simp add: readsTwoDigits_def newYorkRuntime_def decimalNumber_def decimal_two twoDigits_def)

lemma fixedOffset_utcRuntime: "fixedOffset utcRuntime 0"
  by (simp add: fixedOffset_def utcRuntime_def)

lemma fixedOffset_quietDay:
  assumes "fixedOffset rt c"
  shows "quietDay rt now"
proof -
  have z: "\<And>t. tzaOfUTC rt t = c" "\<And>t. tzaOfLocal rt t = c"
    using assms by (simp_all add: fixedOffset_def)
  show ?thesis by (simp add: quietDay_def Let_def z UTC_def)
qed

lemma sameLocalDay_same: "sameLocalDay rt now now"
  using day_bounds [of "now + tzaOfUTC rt now"]
  by (simp add: sameLocalDay_def localMidnight_def LocalTime_def)

text \<open>
  In New York 10 March 2025 is a quiet day, 9 March 2025 is not (both at 12:00 UTC):
  at 04:00 UTC of 9 March, its local midnight, the offset is still five hours.
\<close>

lemma newYork_local_midnight:
  "localMidnight newYorkRuntime 1741608000000 = 1741579200000"
  "localMidnight newYorkRuntime 1741521600000 = 1741492800000"
  by (simp_all add: localMidnight_def LocalTime_def Day_def msPerDay_def newYorkRuntime_def
      newYorkUTC_def)

lemma newYork_offset_at_noon:
  "tzaOfUTC newYorkRuntime 1741608000000 = - 14400000"
  "tzaOfUTC newYorkRuntime 1741521600000 = - 14400000"
  by (simp_all add: newYorkRuntime_def newYorkUTC_def)

lemma quietDay_newYork_10_March: "quietDay newYorkRuntime 1741608000000"
  unfolding quietDay_def Let_def newYork_local_midnight newYork_offset_at_noon
  by (simp add: newYorkRuntime_def newYorkUTC_def newYorkLocal_def UTC_def msPerDay_def)

lemma not_quietDay_newYork_9_March: "\<not> quietDay newYorkRuntime 1741521600000"
proof
  assume "quietDay newYorkRuntime 1741521600000"
  then have "\<forall>t. 1741492800000 \<le> t \<and> t < 1741492800000 + msPerDay
      \<longrightarrow> tzaOfUTC newYorkRuntime t = - 14400000"
    unfolding quietDay_def Let_def newYork_local_midnight newYork_offset_at_noon by blast
  then have "tzaOfUTC newYorkRuntime 1741492800000 = - 14400000"
    by (simp add: msPerDay_def)
  then show False by (simp add: newYorkRuntime_def newYorkUTC_def)
qed

text \<open>\<^verbatim>\<open>const TIMESLOTS = generateTimeSlots()\<close>, at noon of 1 January 2025 in UTC.\<close>

lemma TIMESLOTS:
  "generateTimeSlots utcRuntime noon noon ''11:00'' ''22:00'' 30
     = Some [''11:00'', ''11:30'', ''12:00'', ''12:30'', ''13:00'', ''13:30'', ''14:00'', ''14:30'',
             ''15:00'', ''15:30'', ''16:00'', ''16:30'', ''17:00'', ''17:30'', ''18:00'', ''18:30'',
             ''19:00'', ''19:30'', ''20:00'', ''20:30'', ''21:00'', ''21:30'', ''22:00'']"
  by code_simp

text \<open>
  Where the function does return the slots from \<open>open\<close> to \<open>close\<close>: on a quiet
  local day (no change of the zone's offset during it), with both readings of the clock
  on that day. For \<open>open\<close> and \<open>close\<close> of the form \<^verbatim>\<open>HH:MM\<close>, \<open>open\<close> not after
  \<open>close\<close>, and a positive step, the function returns, and what it returns starts
  with \<open>open\<close>, holds well-formed times only, is strictly increasing (as times of day
  and as strings), never exceeds \<open>close\<close>, and ends with \<open>close\<close> when \<open>close\<close> is
  on the grid. The condition is sufficient, not necessary.
\<close>

lemma time_slots_on_quiet_day:
  assumes rd: "readsTwoDigits rt" and q: "quietDay rt now1" and sd: "sameLocalDay rt now1 now2"
    and c1: "clockReading now1"
    and wo: "wellFormed open'" and wc: "wellFormed close"
    and le: "minutesOf open' \<le> minutesOf close" and st: "0 < st"
  shows "\<exists>slots. generateTimeSlots rt now1 now2 open' close st = Some slots
    \<and> slots \<noteq> [] \<and> hd slots = open'
    \<and> list_all wellFormed slots
    \<and> sorted_wrt (\<lambda>a b. minutesOf a < minutesOf b) slots
    \<and> sorted_wrt textLess slots
    \<and> list_all (\<lambda>s. minutesOf s \<le> minutesOf close) slots
    \<and> ((minutesOf close - minutesOf open') mod st = 0 \<longrightarrow> last slots = close)"
proof -
  let ?o = "minutesOf open'" and ?c = "minutesOf close"
  let ?n = "slotCount ?o ?c st"
  let ?f = "\<lambda>k. clockText (?o + int k * st)"
  let ?slots = "map ?f [0..<?n]"
  note ro = minutesOf_range [OF wo] and rc = minutesOf_range [OF wc]
  have val: "generateTimeSlots rt now1 now2 open' close st = Some ?slots"
    by (rule generateTimeSlots_quiet [OF rd q sd c1 wo wc st])
  have n: "0 < ?n" using le by (rule slotCount_pos)
  have inside: "0 \<le> ?o + int k * st \<and> ?o + int k * st < 1440 \<and> ?o + int k * st \<le> ?c"
    if "k < ?n" for k
    using slotCount_bound [OF st that] ro(1) rc(2) st by simp
  have wf: "wellFormed (?f k)" and mo: "minutesOf (?f k) = ?o + int k * st" if "k < ?n" for k
    using inside [OF that] by (simp_all add: clockText_wellFormed)
  have ne: "?slots \<noteq> []" using n by simp
  have "hd ?slots = ?f 0" using n by (simp add: hd_map upt_conv_Cons)
  then have hd: "hd ?slots = open'" using clockText_minutesOf [OF wo] by simp
  have all_wf: "list_all wellFormed ?slots"
    using wf by (simp add: list_all_iff)
  have sorted: "sorted_wrt (\<lambda>a b. minutesOf a < minutesOf b) ?slots"
    unfolding sorted_wrt_iff_nth_less
  proof (intro allI impI)
    fix i j assume ij: "i < j" "j < length ?slots"
    then have "minutesOf (?slots ! i) = ?o + int i * st" "minutesOf (?slots ! j) = ?o + int j * st"
      using mo by simp_all
    moreover have "int i * st < int j * st" using ij(1) st by simp
    ultimately show "minutesOf (?slots ! i) < minutesOf (?slots ! j)" by simp
  qed
  have text_sorted: "sorted_wrt textLess ?slots"
    unfolding sorted_wrt_iff_nth_less
  proof (intro allI impI)
    fix i j assume ij: "i < j" "j < length ?slots"
    then have "minutesOf (?slots ! i) = ?o + int i * st" "minutesOf (?slots ! j) = ?o + int j * st"
      using mo by simp_all
    moreover have "int i * st < int j * st" using ij(1) st by simp
    ultimately have "minutesOf (?slots ! i) < minutesOf (?slots ! j)" by simp
    moreover have "wellFormed (?slots ! i)" "wellFormed (?slots ! j)" using ij wf by simp_all
    ultimately show "textLess (?slots ! i) (?slots ! j)" by (rule textLess_wellFormed [rotated 2])
  qed
  have bounded: "list_all (\<lambda>s. minutesOf s \<le> ?c) ?slots"
    using mo inside by (simp add: list_all_iff)
  have grid: "last ?slots = close" if "(?c - ?o) mod st = 0"
  proof -
    have "last ?slots = ?f (?n - 1)" using n by (simp add: last_map last_upt)
    also have "\<dots> = clockText ?c" using slotCount_last [OF st le that] by simp
    finally show ?thesis using clockText_minutesOf [OF wc] by simp
  qed
  show ?thesis using val ne hd all_wf sorted text_sorted bounded grid by blast
qed

lemma time_slots_on_quiet_day_example:
  "readsTwoDigits utcRuntime \<and> quietDay utcRuntime noon \<and> sameLocalDay utcRuntime noon noon
   \<and> clockReading noon \<and> wellFormed ''11:00'' \<and> wellFormed ''22:00''
   \<and> minutesOf ''11:00'' \<le> minutesOf ''22:00''
   \<and> (\<exists>slots. generateTimeSlots utcRuntime noon noon ''11:00'' ''22:00'' 30 = Some slots
        \<and> hd slots = ''11:00'' \<and> last slots = ''22:00'' \<and> length slots = 23
        \<and> sorted_wrt textLess slots)"
proof -
  have w: "wellFormed ''11:00''" "wellFormed ''22:00''" by code_simp+
  have m: "minutesOf ''11:00'' = 660" "minutesOf ''22:00'' = 1320" by code_simp+
  have le: "minutesOf ''11:00'' \<le> minutesOf ''22:00''" unfolding m by simp
  have grid: "(minutesOf ''22:00'' - minutesOf ''11:00'') mod 30 = 0" unfolding m by simp
  have q: "quietDay utcRuntime noon" by (rule fixedOffset_quietDay [OF fixedOffset_utcRuntime])
  obtain slots where s: "generateTimeSlots utcRuntime noon noon ''11:00'' ''22:00'' 30 = Some slots"
    "hd slots = ''11:00''" "sorted_wrt textLess slots"
    "last slots = ''22:00''"
    using time_slots_on_quiet_day [OF readsTwoDigits_utcRuntime q
        sameLocalDay_same clockReading_noon w le, of 30] grid
    by auto
  have "length slots = 23" using s(1) unfolding TIMESLOTS by auto
  then show ?thesis
    using s w le readsTwoDigits_utcRuntime q sameLocalDay_same clockReading_noon
    by blast
qed

text \<open>
  C8. The function, whose comment is \<^verbatim>\<open>Generate timeslots between open and close\<close>,
  does not return the slots from \<open>open\<close> to \<open>close\<close> on every day: it sets the two
  times on \<^verbatim>\<open>Date\<close> objects of the current local day and reads the slots off them. In
  New York on 9 March 2025 (the clock at 12:00 UTC) the local times 02:00 and 02:30 do
  not exist: \<^verbatim>\<open>setHours\<close> moves both one hour on, and
  \<^verbatim>\<open>generateTimeSlots("02:00", "02:30", 30)\<close> returns 03:00 and 03:30. The first slot
  is not \<open>open\<close> and both slots exceed \<open>close\<close>.
\<close>

theorem time_slots_on_transition_day:
  "wellFormed ''02:00'' \<and> wellFormed ''02:30'' \<and> minutesOf ''02:00'' \<le> minutesOf ''02:30''
   \<and> generateTimeSlots newYorkRuntime 1741521600000 1741521600000 ''02:00'' ''02:30'' 30
       = Some [''03:00'', ''03:30'']
   \<and> minutesOf ''02:30'' < minutesOf ''03:00''"
  by code_simp

text \<open>
  Where the result depends on the three arguments only: two evaluations give the same
  sequence for the same well-formed arguments whenever each runs on a quiet local day
  with its two readings of the clock on that day; the runtimes, the zones and the dates
  of the two evaluations may differ.
\<close>

lemma time_slots_same_on_quiet_days:
  assumes "readsTwoDigits rt" "quietDay rt now1" "sameLocalDay rt now1 now2"
    "clockReading now1"
    and "readsTwoDigits rt'" "quietDay rt' now1'" "sameLocalDay rt' now1' now2'"
    "clockReading now1'"
    and "wellFormed open'" "wellFormed close" "0 < st"
  shows "generateTimeSlots rt now1 now2 open' close st
       = generateTimeSlots rt' now1' now2' open' close st
    \<and> generateTimeSlots rt now1 now2 open' close st \<noteq> None"
  using generateTimeSlots_quiet [OF assms(1-4) assms(9-11)]
    generateTimeSlots_quiet [OF assms(5-8) assms(9-11)]
  by simp

text \<open>UTC on 1 January 2025 and New York on 10 March 2025: the same three slots.\<close>

lemma time_slots_same_on_quiet_days_example:
  "readsTwoDigits utcRuntime \<and> quietDay utcRuntime noon \<and> sameLocalDay utcRuntime noon noon
   \<and> clockReading noon
   \<and> readsTwoDigits newYorkRuntime \<and> quietDay newYorkRuntime 1741608000000
   \<and> sameLocalDay newYorkRuntime 1741608000000 1741608000000
   \<and> clockReading 1741608000000
   \<and> wellFormed ''01:00'' \<and> wellFormed ''03:00''
   \<and> generateTimeSlots utcRuntime noon noon ''01:00'' ''03:00'' 60
       = generateTimeSlots newYorkRuntime 1741608000000 1741608000000 ''01:00'' ''03:00'' 60"
proof -
  have w: "wellFormed ''01:00''" "wellFormed ''03:00''" by code_simp+
  have c: "clockReading 1741608000000" by (simp add: clockReading_def msPerDay_def)
  have q: "quietDay utcRuntime noon" by (rule fixedOffset_quietDay [OF fixedOffset_utcRuntime])
  show ?thesis
    using time_slots_same_on_quiet_days [OF readsTwoDigits_utcRuntime q
        sameLocalDay_same clockReading_noon
        readsTwoDigits_newYorkRuntime quietDay_newYork_10_March sameLocalDay_same c w, of 60]
      readsTwoDigits_utcRuntime q sameLocalDay_same clockReading_noon
      readsTwoDigits_newYorkRuntime quietDay_newYork_10_March c w
    by simp
qed

text \<open>
  C9. The result is not a function of the three arguments alone: the function reads
  the clock (\<^verbatim>\<open>new Date()\<close>, twice) and the local zone, and the same call gives two
  sequences on two dates. In New York \<^verbatim>\<open>generateTimeSlots("01:00", "03:00", 60)\<close> has
  no slot 02:00 on 9 March 2025 and has it on 10 March 2025 (the clock at 12:00 UTC on
  both days).
\<close>

theorem time_slots_on_two_dates:
  "generateTimeSlots newYorkRuntime 1741521600000 1741521600000 ''01:00'' ''03:00'' 60
     = Some [''01:00'', ''03:00'']
   \<and> generateTimeSlots newYorkRuntime 1741608000000 1741608000000 ''01:00'' ''03:00'' 60
     = Some [''01:00'', ''02:00'', ''03:00'']"
  by code_simp

text \<open>
  The two readings of the clock on two days: \<open>base\<close> is read one millisecond before
  midnight and \<open>end\<close> at midnight, so the loop runs into the next day and the times
  of the slots come back to 23:00. The call of the component,
  \<^verbatim>\<open>generateTimeSlots()\<close>, then returns 71 slots, from 11:00 through midnight to 22:00
  of the next day; on the day of the transition in New York it returns its 23 slots.
\<close>

lemma time_slots_across_midnight:
  "generateTimeSlots utcRuntime 1735775999999 1735776000000 ''23:00'' ''23:30'' 720
       = Some [''23:00'', ''11:00'', ''23:00'']"
  by code_simp

lemma TIMESLOTS_across_midnight:
  "map_option length (generateTimeSlots utcRuntime 1735775999999 1735776000000 ''11:00'' ''22:00'' 30)
     = Some 71
   \<and> map_option (take 4 \<circ> drop 23)
        (generateTimeSlots utcRuntime 1735775999999 1735776000000 ''11:00'' ''22:00'' 30)
     = Some [''22:30'', ''23:00'', ''23:30'', ''00:00'']"
  by code_simp

lemma TIMESLOTS_on_transition_day:
  "generateTimeSlots newYorkRuntime 1741521600000 1741521600000 ''11:00'' ''22:00'' 30
     = generateTimeSlots utcRuntime noon noon ''11:00'' ''22:00'' 30"
  by code_simp


lemma readings_across_midnight: "\<not> sameLocalDay utcRuntime 1735775999999 1735776000000"
  by (simp add: sameLocalDay_def localMidnight_def LocalTime_def Day_def msPerDay_def utcRuntime_def)

end
